theory Spec2Isabelle
  imports Complex_Main "HOL-Library.Log_Nat"
begin

section \<open>Data model (types.ts, constants.ts)\<close>

text \<open>
  A board cell is a JavaScript number (0 for empty, 1..7 for a colour tag). Reading an
  array past its end yields \<open>undefined\<close>, and writing past the end of a row extends the
  row, so the cells of a board are numbers or \<open>undefined\<close>. The matrices of a shape are
  dense arrays of numbers. Row and column numbers are JavaScript numbers that only ever
  hold integers here; they are modelled as unbounded integers.
\<close>

datatype CellValue = Num int | Undefined

type_synonym BoardMatrix = "CellValue list list"

record Position =
  row :: int
  col :: int

record TetrominoShape =
  matrix :: "int list list"
  colorIndex :: int
  shape_id :: string

record ActivePiece =
  shape :: TetrominoShape
  position :: Position
  rotation :: nat
  matrices :: "int list list list"

datatype GameState = Playing | Paused | GameOver | Initial

datatype error = TypeError

definition BOARD_WIDTH :: int where
  "BOARD_WIDTH = 10"

definition BOARD_HEIGHT :: int where
  "BOARD_HEIGHT = 20"

definition INITIAL_FALL_INTERVAL :: int where
  "INITIAL_FALL_INTERVAL = 1000"

definition LEVEL_INTERVAL_DECREMENT :: int where
  "LEVEL_INTERVAL_DECREMENT = 50"

definition LINES_PER_LEVEL :: int where
  "LINES_PER_LEVEL = 10"

definition LINE_CLEAR_ANIMATION_DURATION :: int where
  "LINE_CLEAR_ANIMATION_DURATION = 300"

text \<open>\<open>Array(BOARD_WIDTH).fill(0)\<close> and \<open>createEmptyBoard\<close>.\<close>

definition emptyRow :: "CellValue list" where
  "emptyRow = replicate (nat BOARD_WIDTH) (Num 0)"

definition createEmptyBoard :: BoardMatrix where
  "createEmptyBoard = replicate (nat BOARD_HEIGHT) emptyRow"

subsection \<open>JavaScript array reads and writes\<close>

text \<open>\<open>a[i]\<close> on an array of rows: the row, or \<open>undefined\<close> (here \<open>None\<close>) out of range.\<close>

definition js_row :: "BoardMatrix \<Rightarrow> int \<Rightarrow> CellValue list option" where
  "js_row b i = (if 0 \<le> i \<and> i < int (length b) then Some (b ! nat i) else None)"

text \<open>\<open>r[j]\<close> on a row: the cell, or \<open>undefined\<close> out of range.\<close>

definition js_cell :: "CellValue list \<Rightarrow> int \<Rightarrow> CellValue" where
  "js_cell r j = (if 0 \<le> j \<and> j < int (length r) then r ! nat j else Undefined)"

text \<open>
  \<open>r[j] = v\<close> for \<open>j \<ge> 0\<close>: an index past the end extends the row; the cells in between
  read as \<open>undefined\<close>.
\<close>

definition js_row_set :: "CellValue list \<Rightarrow> nat \<Rightarrow> CellValue \<Rightarrow> CellValue list" where
  "js_row_set r j v =
     (if j < length r then r[j := v] else r @ replicate (j - length r) Undefined @ [v])"

text \<open>
  \<open>b[i][j] = v\<close> for \<open>j \<ge> 0\<close>: a \<open>TypeError\<close> when \<open>b[i]\<close> is \<open>undefined\<close>.
\<close>

definition js_set :: "BoardMatrix \<Rightarrow> int \<Rightarrow> int \<Rightarrow> CellValue \<Rightarrow> error + BoardMatrix" where
  "js_set b i j v =
     (case js_row b i of
        None \<Rightarrow> Inl TypeError
      | Some r \<Rightarrow> Inr (b[nat i := js_row_set r (nat j) v]))"

text \<open>\<open>row.every(cell => cell !== 0)\<close>.\<close>

definition every_nonzero :: "CellValue list \<Rightarrow> bool" where
  "every_nonzero r = list_all (\<lambda>cell. cell \<noteq> Num 0) r"

text \<open>
  \<open>a.splice(i, 1)\<close>: a negative start counts from the end, a start past the end removes
  nothing.
\<close>

definition splice1 :: "'a list \<Rightarrow> int \<Rightarrow> 'a list" where
  "splice1 xs i =
     (let n = int (length xs);
          start = (if i < 0 then max (n + i) 0 else min i n)
      in take (nat start) xs @ drop (nat start + 1) xs)"

section \<open>Collision check (TetrisGame.tsx, checkCollision)\<close>

text \<open>The condition of the inner \<open>if\<close>, at a projected board row and column.\<close>

definition cellBlocked :: "BoardMatrix \<Rightarrow> int \<Rightarrow> int \<Rightarrow> bool" where
  "cellBlocked boardToCheck boardRow boardCol =
     (boardRow \<ge> BOARD_HEIGHT \<or> boardCol < 0 \<or> boardCol \<ge> BOARD_WIDTH \<or>
      (boardRow \<ge> 0 \<and>
       (case js_row boardToCheck boardRow of
          None \<Rightarrow> False
        | Some r \<Rightarrow> js_cell r boardCol \<noteq> Num 0)))"

text \<open>The inner loop over the cells of one matrix row, from board column \<open>boardCol\<close> on.\<close>

fun collidesCells :: "int list \<Rightarrow> int \<Rightarrow> int \<Rightarrow> BoardMatrix \<Rightarrow> bool" where
  "collidesCells [] boardRow boardCol b = False"
| "collidesCells (cell # cells) boardRow boardCol b =
     (if cell \<noteq> 0 \<and> cellBlocked b boardRow boardCol then True
      else collidesCells cells boardRow (boardCol + 1) b)"

text \<open>The outer loop over the matrix rows, from board row \<open>boardRow\<close> on.\<close>

fun collidesRows :: "int list list \<Rightarrow> int \<Rightarrow> int \<Rightarrow> BoardMatrix \<Rightarrow> bool" where
  "collidesRows [] boardRow boardCol b = False"
| "collidesRows (r # rs) boardRow boardCol b =
     (if collidesCells r boardRow boardCol b then True
      else collidesRows rs (boardRow + 1) boardCol b)"

text \<open>
  \<open>piece.matrices[piece.rotation]\<close>: \<open>undefined\<close> when the rotation index is out of range,
  and then \<open>matrix.length\<close> raises a \<open>TypeError\<close>.
\<close>

definition currentMatrix :: "ActivePiece \<Rightarrow> int list list option" where
  "currentMatrix piece =
     (if rotation piece < length (matrices piece)
      then Some (matrices piece ! rotation piece) else None)"

definition checkCollision :: "ActivePiece \<Rightarrow> Position \<Rightarrow> BoardMatrix \<Rightarrow> error + bool" where
  "checkCollision piece pos boardToCheck =
     (case currentMatrix piece of
        None \<Rightarrow> Inl TypeError
      | Some m \<Rightarrow> Inr (collidesRows m (row pos) (col pos) boardToCheck))"

section \<open>Piece generator (constants.ts, spawnNewPiece)\<close>

definition I_SHAPE :: TetrominoShape where
  "I_SHAPE = \<lparr>matrix = [[0,0,0,0],[1,1,1,1],[0,0,0,0],[0,0,0,0]], colorIndex = 1, shape_id = ''I''\<rparr>"

definition L_SHAPE :: TetrominoShape where
  "L_SHAPE = \<lparr>matrix = [[0,2,0],[0,2,0],[0,2,2]], colorIndex = 2, shape_id = ''L''\<rparr>"

definition J_SHAPE :: TetrominoShape where
  "J_SHAPE = \<lparr>matrix = [[0,3,0],[0,3,0],[3,3,0]], colorIndex = 3, shape_id = ''J''\<rparr>"

definition O_SHAPE :: TetrominoShape where
  "O_SHAPE = \<lparr>matrix = [[4,4],[4,4]], colorIndex = 4, shape_id = ''O''\<rparr>"

definition S_SHAPE :: TetrominoShape where
  "S_SHAPE = \<lparr>matrix = [[0,5,5],[5,5,0],[0,0,0]], colorIndex = 5, shape_id = ''S''\<rparr>"

definition Z_SHAPE :: TetrominoShape where
  "Z_SHAPE = \<lparr>matrix = [[6,6,0],[0,6,6],[0,0,0]], colorIndex = 6, shape_id = ''Z''\<rparr>"

definition T_SHAPE :: TetrominoShape where
  "T_SHAPE = \<lparr>matrix = [[0,7,0],[7,7,7],[0,0,0]], colorIndex = 7, shape_id = ''T''\<rparr>"

definition TETROMINOES :: "TetrominoShape list" where
  "TETROMINOES = [I_SHAPE, L_SHAPE, J_SHAPE, O_SHAPE, S_SHAPE, Z_SHAPE, T_SHAPE]"

text \<open>
  One pass of the loop body of \<open>getRotations\<close>: every cell \<open>(r, c)\<close> of the \<open>N \<times> N\<close>
  matrix is copied to \<open>newMatrix[c][N - 1 - r]\<close>, so cell \<open>(i, j)\<close> of the new matrix is
  cell \<open>(N - 1 - j, i)\<close> of the old one. It is applied to the square matrices of
  \<open>TETROMINOES\<close> only.
\<close>

definition rotateMatrix :: "int list list \<Rightarrow> int list list" where
  "rotateMatrix cur =
     (let N = length cur
      in map (\<lambda>i. map (\<lambda>j. cur ! (N - 1 - j) ! i) [0..<N]) [0..<N])"

definition getRotations :: "int list list \<Rightarrow> int list list list" where
  "getRotations m =
     (let r1 = rotateMatrix m; r2 = rotateMatrix r1; r3 = rotateMatrix r2
      in [m, r1, r2, r3])"

text \<open>
  \<open>spawnNewPiece\<close>; the argument is the value of
  \<open>Math.floor(Math.random() * TETROMINOES.length)\<close>, a number from 0 to 6.
\<close>

definition spawnNewPiece :: "nat \<Rightarrow> ActivePiece" where
  "spawnNewPiece randomIndex =
     (let sh = TETROMINOES ! randomIndex;
          ms = getRotations (map (map (\<lambda>cell. if cell > 0 then colorIndex sh else 0)) (matrix sh))
      in \<lparr>shape = sh,
          position = \<lparr>row = 0, col = BOARD_WIDTH div 2 - int (length (ms ! 0 ! 0)) div 2\<rparr>,
          rotation = 0,
          matrices = ms\<rparr>)"

section \<open>Session state\<close>

text \<open>A score of the planner: a JavaScript number that may be \<open>-Infinity\<close>.\<close>

datatype Score = NegInfinity | Points int

text \<open>\<open>a > b\<close> on such numbers.\<close>

fun scoreGreater :: "Score \<Rightarrow> Score \<Rightarrow> bool" where
  "scoreGreater NegInfinity b = False"
| "scoreGreater (Points x) NegInfinity = True"
| "scoreGreater (Points x) (Points y) = (x > y)"

record AiMove =
  targetRotation :: nat
  targetCol :: int
  moveScore :: Score
  finalRow :: int

section \<open>Numbers of the session\<close>

text \<open>
  The score, the total of lines and the level are JavaScript numbers, that is IEEE 754
  doubles, and the source computes them with \<open>+\<close>, \<open>-\<close>, \<open>*\<close>, \<open>/\<close> and \<open>Math.floor\<close>. The
  model holds the doubles whose value is an integer, as an \<open>int\<close>; every operation gives
  the exact result rounded to the nearest double, that is to 53 significant bits, a tie
  going to the even significand. The numbers of a session stay finite: a magnitude of
  \<open>2 ^ 1024\<close> or more, which is \<open>Infinity\<close> in the source, is outside the model.

  \<open>roundHalfEven y c\<close> is the integer nearest to \<open>y / c\<close> for \<open>c > 0\<close>, the even one of the two
  when \<open>y / c\<close> lies half way.
\<close>

definition roundHalfEven :: "int \<Rightarrow> int \<Rightarrow> int" where
  "roundHalfEven y c =
     (let q = y div c; r = y mod c
      in if 2 * r < c then q
         else if 2 * r > c then q + 1
         else if even q then q else q + 1)"

text \<open>
  The double nearest to the integer \<open>x\<close>: with \<open>b\<close> the number of bits of \<open>\<bar>x\<bar>\<close>, the doubles
  between \<open>2 ^ (b - 1)\<close> and \<open>2 ^ b\<close> are the multiples of \<open>2 ^ (b - 53)\<close>.
\<close>

definition js_round :: "int \<Rightarrow> int" where
  "js_round x =
     (let e = bitlen \<bar>x\<bar> - 53
      in if e \<le> 0 then x else roundHalfEven x (2 ^ nat e) * 2 ^ nat e)"

definition js_plus :: "int \<Rightarrow> int \<Rightarrow> int" where
  "js_plus a b = js_round (a + b)"

definition js_minus :: "int \<Rightarrow> int \<Rightarrow> int" where
  "js_minus a b = js_round (a - b)"

definition js_times :: "int \<Rightarrow> int \<Rightarrow> int" where
  "js_times a b = js_round (a * b)"

text \<open>
  \<open>Math.floor(x / d)\<close> for a divisor \<open>d > 0\<close>: the quotient \<open>x / d\<close> is rounded to the nearest
  double and then floored. \<open>E\<close> is the exponent of the quotient, \<open>2 ^ E \<le> \<bar>x\<bar> / d < 2 ^ (E + 1)\<close>,
  and the doubles there are the multiples of \<open>2 ^ (E - 52)\<close>.
\<close>

definition js_floor_div :: "int \<Rightarrow> int \<Rightarrow> int" where
  "js_floor_div x d =
     (if x = 0 then 0
      else
        (let bx = bitlen \<bar>x\<bar>; bd = bitlen d;
             E = (if d * 2 ^ nat bx \<le> \<bar>x\<bar> * 2 ^ nat bd then bx - bd else bx - bd - 1);
             e = E - 52
         in if e \<ge> 0 then roundHalfEven x (d * 2 ^ nat e) * 2 ^ nat e
            else roundHalfEven (x * 2 ^ nat (- e)) d div 2 ^ nat (- e)))"

section \<open>The session\<close>

text \<open>
  The callback of the clear animation is created inside \<open>lockPiece\<close> and reads \<open>linesCleared\<close>,
  \<open>level\<close> and \<open>nextPiecePreview\<close> from the closure of \<open>lockPiece\<close>: it sees the values these
  had when the piece was locked, whatever the session holds when the timer fires.
\<close>

record ClearClosure =
  closureLinesCleared :: int
  closureLevel :: int
  closureNextPiecePreview :: "ActivePiece option"

text \<open>
  The state of a session: the React state of \<open>App\<close> (game state, score, lines, level,
  next piece, AI switch), the React state of \<open>TetrisGame\<close> (board, current piece) and its
  refs. A ref that mirrors a state variable (\<open>boardRef\<close>, \<open>currentPieceRef\<close>) is the same
  field as the variable: an effect copies the variable into the ref after every render,
  and no handler reads the ref again after it has set the variable. A handler reads the
  state variables of the latest render. A pending step timer is a flag, the think timer
  holds its delay, and the pending timer of the clear animation holds the closure of its
  callback. Times are in milliseconds.
\<close>

record GameSession =
  gameState :: GameState
  score :: int
  linesCleared :: int
  level :: int
  nextPiecePreview :: "ActivePiece option"
  isAiActive :: bool
  board :: BoardMatrix
  currentPiece :: "ActivePiece option"
  fallInterval :: int
  lastFallTime :: rat
  aiActionInProgress :: bool
  aiThinkTimeout :: "rat option"
  aiCurrentBestMove :: "AiMove option"
  aiStepTimeout :: bool
  clearingRows :: "int list"
  isLineClearingAnimationActive :: bool
  lineClearEffectTimeout :: "ClearClosure option"

section \<open>Lock and line clear (TetrisGame.tsx, lockPiece)\<close>

text \<open>
  Lines 163 to 175: the piece is written into a copy of the board, one matrix row after
  the other; a cell outside the board is skipped.
\<close>

fun settleCells :: "int list \<Rightarrow> int \<Rightarrow> int \<Rightarrow> BoardMatrix \<Rightarrow> error + BoardMatrix" where
  "settleCells [] boardRow boardCol newBoard = Inr newBoard"
| "settleCells (cell # cells) boardRow boardCol newBoard =
     (if cell \<noteq> 0 \<and> boardRow \<ge> 0 \<and> boardRow < BOARD_HEIGHT \<and> boardCol \<ge> 0 \<and> boardCol < BOARD_WIDTH
      then (case js_set newBoard boardRow boardCol (Num cell) of
              Inl e \<Rightarrow> Inl e
            | Inr nb \<Rightarrow> settleCells cells boardRow (boardCol + 1) nb)
      else settleCells cells boardRow (boardCol + 1) newBoard)"

fun settleRows :: "int list list \<Rightarrow> int \<Rightarrow> int \<Rightarrow> BoardMatrix \<Rightarrow> error + BoardMatrix" where
  "settleRows [] boardRow boardCol newBoard = Inr newBoard"
| "settleRows (r # rs) boardRow boardCol newBoard =
     (case settleCells r boardRow boardCol newBoard of
        Inl e \<Rightarrow> Inl e
      | Inr nb \<Rightarrow> settleRows rs (boardRow + 1) boardCol nb)"

definition settle :: "BoardMatrix \<Rightarrow> ActivePiece \<Rightarrow> error + BoardMatrix" where
  "settle b pieceToLock =
     (case currentMatrix pieceToLock of
        None \<Rightarrow> Inl TypeError
      | Some m \<Rightarrow> settleRows m (row (position pieceToLock)) (col (position pieceToLock)) b)"

text \<open>
  Lines 177 to 187: some non-empty cell of the locked matrix lies above the board. The
  argument \<open>boardRow\<close> is \<open>pieceToLock.position.row + r_idx\<close>.
\<close>

fun aboveTopRows :: "int list list \<Rightarrow> int \<Rightarrow> bool" where
  "aboveTopRows [] boardRow = False"
| "aboveTopRows (r # rs) boardRow =
     (if list_ex (\<lambda>cell. cell \<noteq> 0 \<and> boardRow < 0) r then True
      else aboveTopRows rs (boardRow + 1))"

text \<open>
  Lines 201 to 206: the rows \<open>n - 1\<close> down to 0 are scanned and the indices of the full
  ones collected in that order; \<open>newBoard[r].every\<close> raises a \<open>TypeError\<close> on a missing row.
\<close>

fun fullRowsBelow :: "BoardMatrix \<Rightarrow> nat \<Rightarrow> error + int list" where
  "fullRowsBelow newBoard 0 = Inr []"
| "fullRowsBelow newBoard (Suc r) =
     (case js_row newBoard (int r) of
        None \<Rightarrow> Inl TypeError
      | Some cells \<Rightarrow>
          (case fullRowsBelow newBoard r of
             Inl e \<Rightarrow> Inl e
           | Inr rest \<Rightarrow> Inr (if every_nonzero cells then int r # rest else rest)))"

text \<open>
  The next piece: the queued preview if there is one, a fresh piece otherwise; the
  preview is refilled. The result is the piece to spawn and the new preview.
\<close>

definition takeNextPiece :: "ActivePiece option \<Rightarrow> nat \<Rightarrow> nat \<Rightarrow> ActivePiece \<times> ActivePiece" where
  "takeNextPiece queued rnd1 rnd2 =
     (case queued of
        Some p \<Rightarrow> (p, spawnNewPiece rnd1)
      | None \<Rightarrow> (spawnNewPiece rnd1, spawnNewPiece rnd2))"

text \<open>
  \<open>lockPiece\<close> up to the point where the timer of the clear animation is armed. The two
  numbers are the random shape indices of the calls of \<open>spawnNewPiece\<close>.
\<close>

definition lockPiece :: "GameSession \<Rightarrow> ActivePiece option \<Rightarrow> nat \<Rightarrow> nat \<Rightarrow> error + GameSession" where
  "lockPiece s pieceToLock rnd1 rnd2 =
     (case pieceToLock of
        None \<Rightarrow> Inr (s\<lparr>aiActionInProgress := False\<rparr>)
      | Some p \<Rightarrow>
          if isLineClearingAnimationActive s then Inr s
          else
            (case settle (board s) p of
               Inl e \<Rightarrow> Inl e
             | Inr newBoard \<Rightarrow>
               (case currentMatrix p of
                  None \<Rightarrow> Inl TypeError
                | Some lockedMatrix \<Rightarrow>
                 if aboveTopRows lockedMatrix (row (position p))
                 then Inr (s\<lparr>gameState := GameOver, currentPiece := None,
                              aiActionInProgress := False, aiCurrentBestMove := None,
                              aiStepTimeout := False, lineClearEffectTimeout := None,
                              isLineClearingAnimationActive := False, clearingRows := []\<rparr>)
                 else
                   (case fullRowsBelow newBoard (nat BOARD_HEIGHT) of
                      Inl e \<Rightarrow> Inl e
                    | Inr linesToClearIndices \<Rightarrow>
                        if length linesToClearIndices > 0
                        then Inr (s\<lparr>board := newBoard, clearingRows := linesToClearIndices,
                                     isLineClearingAnimationActive := True,
                                     currentPiece := None,
                                     lineClearEffectTimeout :=
                                       Some \<lparr>closureLinesCleared = linesCleared s,
                                             closureLevel = level s,
                                             closureNextPiecePreview = nextPiecePreview s\<rparr>\<rparr>)
                        else
                          (let (newPieceToSpawn, preview) = takeNextPiece (nextPiecePreview s) rnd1 rnd2
                           in case checkCollision newPieceToSpawn (position newPieceToSpawn) newBoard of
                                Inl e \<Rightarrow> Inl e
                              | Inr hit \<Rightarrow>
                                  Inr (s\<lparr>board := newBoard, nextPiecePreview := Some preview,
                                         gameState := (if hit then GameOver else gameState s),
                                         currentPiece := (if hit then None else Some newPieceToSpawn),
                                         aiActionInProgress := False, aiCurrentBestMove := None,
                                         aiStepTimeout := False\<rparr>))))))"

text \<open>
  Lines 219 to 266, the callback of the clear animation's timer; it runs when the timer
  is pending. The detected rows are sorted in descending order; for each of them the row
  at that index is spliced out and an empty row is put in front. The board and the
  detected rows are read from refs and the score through the updater of \<open>setScore\<close>, so
  these are the values of the session when the timer fires; \<open>linesCleared\<close>, \<open>level\<close> and
  \<open>nextPiecePreview\<close> are those of the closure.
\<close>

fun removeRows :: "int list \<Rightarrow> BoardMatrix \<Rightarrow> int \<Rightarrow> BoardMatrix \<times> int" where
  "removeRows [] boardAfterClearVisuals linesClearedThisTurn =
     (boardAfterClearVisuals, linesClearedThisTurn)"
| "removeRows (rowIndex # rest) boardAfterClearVisuals linesClearedThisTurn =
     removeRows rest (emptyRow # splice1 boardAfterClearVisuals rowIndex) (linesClearedThisTurn + 1)"

definition clearComplete :: "GameSession \<Rightarrow> rat \<Rightarrow> nat \<Rightarrow> nat \<Rightarrow> error + GameSession" where
  "clearComplete s now rnd1 rnd2 =
     (case lineClearEffectTimeout s of
        None \<Rightarrow> Inr s
      | Some closure \<Rightarrow>
        (let sortedClearingRows = rev (sort (clearingRows s));
             (boardAfterClearVisuals, linesClearedThisTurn) = removeRows sortedClearingRows (board s) 0;
             newTotalLines = js_plus (closureLinesCleared closure) linesClearedThisTurn;
             newLevel = js_plus (js_floor_div newTotalLines LINES_PER_LEVEL) 1;
             s1 = (if linesClearedThisTurn > 0
                   then s\<lparr>linesCleared := newTotalLines,
                          score := js_plus (score s)
                                     (js_times (js_times (js_times linesClearedThisTurn 100)
                                                  linesClearedThisTurn) (closureLevel closure)),
                          level := (if newLevel > closureLevel closure then newLevel else level s),
                          fallInterval :=
                            (if newLevel > closureLevel closure
                             then max 100 (js_minus INITIAL_FALL_INTERVAL
                                             (js_times (js_minus newLevel 1) LEVEL_INTERVAL_DECREMENT))
                             else fallInterval s)\<rparr>
                   else s);
             (newPieceToSpawn, preview) = takeNextPiece (closureNextPiecePreview closure) rnd1 rnd2
         in case checkCollision newPieceToSpawn (position newPieceToSpawn) boardAfterClearVisuals of
              Inl e \<Rightarrow> Inl e
            | Inr hit \<Rightarrow>
                Inr (s1\<lparr>board := boardAfterClearVisuals, nextPiecePreview := Some preview,
                        gameState := (if hit then GameOver else gameState s),
                        currentPiece := (if hit then currentPiece s else Some newPieceToSpawn),
                        clearingRows := [], isLineClearingAnimationActive := False,
                        lineClearEffectTimeout := None,
                        aiActionInProgress := False, aiCurrentBestMove := None,
                        aiStepTimeout := False, lastFallTime := now\<rparr>)))"

section \<open>A new game (App.tsx, startGame, and the effect on the game state)\<close>

section \<open>Movement, rotation and drop (movePiece, moveDown, rotatePiece, hardDrop)\<close>

definition movePiece :: "GameSession \<Rightarrow> int \<Rightarrow> int \<Rightarrow> error + (GameSession \<times> bool)" where
  "movePiece s dRow dCol =
     (case currentPiece s of
        None \<Rightarrow> Inr (s, False)
      | Some piece \<Rightarrow>
          if gameState s \<noteq> Playing \<or> isLineClearingAnimationActive s then Inr (s, False)
          else
            (let newPosition = \<lparr>row = row (position piece) + dRow, col = col (position piece) + dCol\<rparr>
             in case checkCollision piece newPosition (board s) of
                  Inl e \<Rightarrow> Inl e
                | Inr hit \<Rightarrow>
                    if \<not> hit
                    then Inr (s\<lparr>currentPiece := Some (piece\<lparr>position := newPosition\<rparr>)\<rparr>, True)
                    else Inr (s, False)))"

definition moveDown :: "GameSession \<Rightarrow> nat \<Rightarrow> nat \<Rightarrow> error + GameSession" where
  "moveDown s rnd1 rnd2 =
     (if currentPiece s = None \<or> gameState s \<noteq> Playing \<or> isLineClearingAnimationActive s then Inr s
      else
        (case movePiece s 1 0 of
           Inl e \<Rightarrow> Inl e
         | Inr (s', moved) \<Rightarrow> if \<not> moved then lockPiece s (currentPiece s) rnd1 rnd2 else Inr s'))"

text \<open>
  The loop over the horizontal kick offsets: the first offset at which the rotated piece
  does not collide gives the new piece, \<open>None\<close> when there is none.
\<close>

fun tryOffsets :: "ActivePiece \<Rightarrow> Position \<Rightarrow> int list \<Rightarrow> BoardMatrix \<Rightarrow> error + ActivePiece option" where
  "tryOffsets rotatedPiece pos [] b = Inr None"
| "tryOffsets rotatedPiece pos (offset # rest) b =
     (let testPosition = pos\<lparr>col := col pos + offset\<rparr>
      in case checkCollision rotatedPiece testPosition b of
           Inl e \<Rightarrow> Inl e
         | Inr hit \<Rightarrow>
             if \<not> hit then Inr (Some (rotatedPiece\<lparr>position := testPosition\<rparr>))
             else tryOffsets rotatedPiece pos rest b)"

text \<open>
  Lines 312 to 343 of \<open>rotatePiece\<close>, on the current piece and board: the piece that
  \<open>setCurrentPiece\<close> receives, \<open>None\<close> when the rotation is rejected.
\<close>

definition rotateAttempt :: "ActivePiece \<Rightarrow> BoardMatrix \<Rightarrow> error + ActivePiece option" where
  "rotateAttempt cur b =
     (let newRotation = (rotation cur + 1) mod length (matrices cur);
          rotatedPiece = cur\<lparr>rotation := newRotation\<rparr>
      in case checkCollision rotatedPiece (position cur) b of
           Inl e \<Rightarrow> Inl e
         | Inr hit \<Rightarrow>
             if \<not> hit then Inr (Some rotatedPiece)
             else
               (case tryOffsets rotatedPiece (position cur) [-1, 1, -2, 2] b of
                  Inl e \<Rightarrow> Inl e
                | Inr (Some kicked) \<Rightarrow> Inr (Some kicked)
                | Inr None \<Rightarrow>
                    if shape_id (shape cur) = ''I'' \<and> row (position cur) \<le> 1
                    then
                      (let testPositionUp1 = (position cur)\<lparr>row := row (position cur) - 1\<rparr>
                       in case checkCollision rotatedPiece testPositionUp1 b of
                            Inl e \<Rightarrow> Inl e
                          | Inr hit1 \<Rightarrow>
                              if \<not> hit1 then Inr (Some (rotatedPiece\<lparr>position := testPositionUp1\<rparr>))
                              else
                                (let testPositionUp2 = (position cur)\<lparr>row := row (position cur) - 2\<rparr>
                                 in case checkCollision rotatedPiece testPositionUp2 b of
                                      Inl e \<Rightarrow> Inl e
                                    | Inr hit2 \<Rightarrow>
                                        if \<not> hit2
                                        then Inr (Some (rotatedPiece\<lparr>position := testPositionUp2\<rparr>))
                                        else Inr None))
                    else if row (position cur) \<le> 1
                    then
                      (let testPositionUp = (position cur)\<lparr>row := row (position cur) - 1\<rparr>
                       in case checkCollision rotatedPiece testPositionUp b of
                            Inl e \<Rightarrow> Inl e
                          | Inr hit1 \<Rightarrow>
                              if \<not> hit1 then Inr (Some (rotatedPiece\<lparr>position := testPositionUp\<rparr>))
                              else Inr None)
                    else Inr None))"

definition rotatePiece :: "GameSession \<Rightarrow> error + GameSession" where
  "rotatePiece s =
     (case currentPiece s of
        None \<Rightarrow> Inr s
      | Some cur \<Rightarrow>
          if gameState s \<noteq> Playing \<or> isLineClearingAnimationActive s then Inr s
          else
            (case rotateAttempt cur (board s) of
               Inl e \<Rightarrow> Inl e
             | Inr None \<Rightarrow> Inr s
             | Inr (Some p) \<Rightarrow> Inr (s\<lparr>currentPiece := Some p\<rparr>)))"

text \<open>
  The descent loop of \<open>hardDrop\<close> and of the planner: the row goes down while the next
  row is free. A piece without cells never collides and the loop does not end: the
  result is \<open>None\<close> then.
\<close>

partial_function (option) dropLoop :: "ActivePiece \<Rightarrow> int \<Rightarrow> int \<Rightarrow> BoardMatrix \<Rightarrow> (error + int) option" where
  "dropLoop piece r c b =
     (case checkCollision piece \<lparr>row = r + 1, col = c\<rparr> b of
        Inl e \<Rightarrow> Some (Inl e)
      | Inr hit \<Rightarrow> if \<not> hit then dropLoop piece (r + 1) c b else Some (Inr r))"

declare dropLoop.simps [code]

definition hardDrop :: "GameSession \<Rightarrow> nat \<Rightarrow> nat \<Rightarrow> (error + GameSession) option" where
  "hardDrop s rnd1 rnd2 =
     (case currentPiece s of
        None \<Rightarrow> Some (Inr s)
      | Some cur \<Rightarrow>
          if gameState s \<noteq> Playing \<or> isLineClearingAnimationActive s then Some (Inr s)
          else
            (case dropLoop cur (row (position cur)) (col (position cur)) (board s) of
               None \<Rightarrow> None
             | Some (Inl e) \<Rightarrow> Some (Inl e)
             | Some (Inr r) \<Rightarrow>
                 Some (lockPiece s (Some (cur\<lparr>position := (position cur)\<lparr>row := r\<rparr>\<rparr>)) rnd1 rnd2)))"

section \<open>Keyboard and gravity (handleKeyDown, animate)\<close>

datatype Key = ArrowLeft | ArrowRight | ArrowDown | ArrowUp | KeyX | Space | OtherKey

text \<open>The key handler; \<open>now\<close> is the value of \<open>performance.now()\<close>.\<close>

definition handleKeyDown :: "GameSession \<Rightarrow> Key \<Rightarrow> rat \<Rightarrow> nat \<Rightarrow> nat \<Rightarrow> (error + GameSession) option" where
  "handleKeyDown s key now rnd1 rnd2 =
     (if isLineClearingAnimationActive s then Some (Inr s)
      else if isAiActive s \<and> gameState s = Playing then Some (Inr s)
      else if gameState s \<noteq> Playing \<or> currentPiece s = None then Some (Inr s)
      else
        (case key of
           ArrowLeft \<Rightarrow> Some (map_sum (\<lambda>e. e) fst (movePiece s 0 (- 1)))
         | ArrowRight \<Rightarrow> Some (map_sum (\<lambda>e. e) fst (movePiece s 0 1))
         | ArrowDown \<Rightarrow> Some (moveDown (s\<lparr>lastFallTime := now\<rparr>) rnd1 rnd2)
         | ArrowUp \<Rightarrow> Some (rotatePiece s)
         | KeyX \<Rightarrow> Some (rotatePiece s)
         | Space \<Rightarrow> hardDrop s rnd1 rnd2
         | OtherKey \<Rightarrow> Some (Inr s)))"

text \<open>The gravity part of one animation frame at time \<open>timestamp\<close> (lines 752 to 757).\<close>

definition gravityTick :: "GameSession \<Rightarrow> rat \<Rightarrow> nat \<Rightarrow> nat \<Rightarrow> error + GameSession" where
  "gravityTick s timestamp rnd1 rnd2 =
     (if gameState s = Playing \<and> currentPiece s \<noteq> None \<and> \<not> isAiActive s
         \<and> \<not> isLineClearingAnimationActive s
      then
        (if timestamp - lastFallTime s > of_int (fallInterval s)
         then (case moveDown s rnd1 rnd2 of
                 Inl e \<Rightarrow> Inl e
               | Inr s' \<Rightarrow> Inr (s'\<lparr>lastFallTime := timestamp\<rparr>))
         else Inr s)
      else Inr s)"

section \<open>Heuristic evaluation (evaluateBoardState)\<close>

text \<open>
  Lines 398 to 410: the piece is written into a copy of the board at \<open>dropRow\<close>; a cell
  above the board sets \<open>isPlacedGameOver\<close>, any other cell outside the board is skipped.
\<close>

fun placeCells :: "int list \<Rightarrow> int \<Rightarrow> int \<Rightarrow> BoardMatrix \<times> bool \<Rightarrow> error + BoardMatrix \<times> bool" where
  "placeCells [] fRow fCol st = Inr st"
| "placeCells (cell # cells) fRow fCol (boardAfterPlace, isPlacedGameOver) =
     (if cell \<noteq> 0
      then
        (if fRow \<ge> 0 \<and> fRow < BOARD_HEIGHT \<and> fCol \<ge> 0 \<and> fCol < BOARD_WIDTH
         then (case js_set boardAfterPlace fRow fCol (Num cell) of
                 Inl e \<Rightarrow> Inl e
               | Inr nb \<Rightarrow> placeCells cells fRow (fCol + 1) (nb, isPlacedGameOver))
         else if fRow < 0
         then placeCells cells fRow (fCol + 1) (boardAfterPlace, True)
         else placeCells cells fRow (fCol + 1) (boardAfterPlace, isPlacedGameOver))
      else placeCells cells fRow (fCol + 1) (boardAfterPlace, isPlacedGameOver))"

fun placeRows :: "int list list \<Rightarrow> int \<Rightarrow> int \<Rightarrow> BoardMatrix \<times> bool \<Rightarrow> error + BoardMatrix \<times> bool" where
  "placeRows [] fRow fCol st = Inr st"
| "placeRows (r # rs) fRow fCol st =
     (case placeCells r fRow fCol st of
        Inl e \<Rightarrow> Inl e
      | Inr st' \<Rightarrow> placeRows rs (fRow + 1) fCol st')"

text \<open>
  Lines 414 to 422: from the bottom row up, a full row is spliced out and an empty row is
  put in front, and the same index is looked at again; otherwise the index goes up one
  row.
\<close>

function clearLoop :: "BoardMatrix \<Rightarrow> int \<Rightarrow> int \<Rightarrow> error + BoardMatrix \<times> int" where
  "clearLoop boardAfterPlace r_idx linesClearedCount =
     (if r_idx \<ge> 0
      then
        (case js_row boardAfterPlace r_idx of
           None \<Rightarrow> Inl TypeError
         | Some cells \<Rightarrow>
             if every_nonzero cells
             then clearLoop (emptyRow # splice1 boardAfterPlace r_idx) r_idx (linesClearedCount + 1)
             else clearLoop boardAfterPlace (r_idx - 1) linesClearedCount)
      else Inr (boardAfterPlace, linesClearedCount))"
  by pat_completeness auto
termination
proof (relation "measures [\<lambda>(b, r, n). length (filter every_nonzero b), \<lambda>(b, r, n). nat (r + 1)]")
  show "wf (measures [\<lambda>(b, r, n). length (filter every_nonzero b), \<lambda>(b, r, n). nat (r + 1)])"
    by simp
next
  fix boardAfterPlace :: BoardMatrix and r_idx linesClearedCount :: int and cells
  assume r: "0 \<le> r_idx" and row: "js_row boardAfterPlace r_idx = Some cells"
    and full: "every_nonzero cells"
  from row have lt: "nat r_idx < length boardAfterPlace" and cells: "cells = boardAfterPlace ! nat r_idx"
    by (auto simp: js_row_def split: if_splits)
  have sp: "splice1 boardAfterPlace r_idx
      = take (nat r_idx) boardAfterPlace @ drop (Suc (nat r_idx)) boardAfterPlace"
    using r lt by (auto simp: splice1_def Let_def min_def)
  have "boardAfterPlace
      = take (nat r_idx) boardAfterPlace @ cells # drop (Suc (nat r_idx)) boardAfterPlace"
    using lt cells by (simp add: id_take_nth_drop)
  then have "length (filter every_nonzero boardAfterPlace)
      = length (filter every_nonzero (take (nat r_idx) boardAfterPlace @ cells # drop (Suc (nat r_idx)) boardAfterPlace))"
    by simp
  also have "\<dots> = Suc (length (filter every_nonzero (splice1 boardAfterPlace r_idx)))"
    using full sp by simp
  finally have cnt: "length (filter every_nonzero (splice1 boardAfterPlace r_idx))
      < length (filter every_nonzero boardAfterPlace)" by simp
  have "\<not> every_nonzero emptyRow"
    by (simp add: every_nonzero_def emptyRow_def BOARD_WIDTH_def list_all_iff)
  with cnt show "((emptyRow # splice1 boardAfterPlace r_idx, r_idx, linesClearedCount + 1),
      (boardAfterPlace, r_idx, linesClearedCount))
    \<in> measures [\<lambda>(b, r, n). length (filter every_nonzero b), \<lambda>(b, r, n). nat (r + 1)]"
    by simp
next
  fix boardAfterPlace :: BoardMatrix and r_idx linesClearedCount :: int and cells
  assume "0 \<le> r_idx"
  then show "((boardAfterPlace, r_idx - 1, linesClearedCount),
      (boardAfterPlace, r_idx, linesClearedCount))
    \<in> measures [\<lambda>(b, r, n). length (filter every_nonzero b), \<lambda>(b, r, n). nat (r + 1)]"
    by simp
qed

declare clearLoop.simps [simp del]

text \<open>
  Lines 427 to 435: the height of column \<open>c\<close> is \<open>BOARD_HEIGHT - r_idx\<close> at the first row
  from the top whose cell is not 0, and 0 when there is none.
\<close>

fun heightScan :: "BoardMatrix \<Rightarrow> int \<Rightarrow> nat list \<Rightarrow> error + int" where
  "heightScan b c [] = Inr 0"
| "heightScan b c (r_idx # rest) =
     (case js_row b (int r_idx) of
        None \<Rightarrow> Inl TypeError
      | Some cells \<Rightarrow>
          if js_cell cells c \<noteq> Num 0 then Inr (BOARD_HEIGHT - int r_idx)
          else heightScan b c rest)"

fun columnHeights :: "BoardMatrix \<Rightarrow> nat list \<Rightarrow> error + int list" where
  "columnHeights b [] = Inr []"
| "columnHeights b (c # cs) =
     (case heightScan b (int c) [0..<nat BOARD_HEIGHT] of
        Inl e \<Rightarrow> Inl e
      | Inr h \<Rightarrow>
          (case columnHeights b cs of
             Inl e \<Rightarrow> Inl e
           | Inr hs \<Rightarrow> Inr (h # hs)))"

text \<open>
  Lines 438 to 448: in each column, from the top, a cell equal to 0 below a cell that is
  not 0 counts as a hole.
\<close>

fun holesScan :: "BoardMatrix \<Rightarrow> int \<Rightarrow> nat list \<Rightarrow> bool \<Rightarrow> int \<Rightarrow> error + int" where
  "holesScan b c [] blockReached holes = Inr holes"
| "holesScan b c (r_idx # rest) blockReached holes =
     (case js_row b (int r_idx) of
        None \<Rightarrow> Inl TypeError
      | Some cells \<Rightarrow>
          if js_cell cells c \<noteq> Num 0 then holesScan b c rest True holes
          else if blockReached \<and> js_cell cells c = Num 0 then holesScan b c rest blockReached (holes + 1)
          else holesScan b c rest blockReached holes)"

fun holesColumns :: "BoardMatrix \<Rightarrow> nat list \<Rightarrow> int \<Rightarrow> error + int" where
  "holesColumns b [] holes = Inr holes"
| "holesColumns b (c # cs) holes =
     (case holesScan b (int c) [0..<nat BOARD_HEIGHT] False holes of
        Inl e \<Rightarrow> Inl e
      | Inr holes' \<Rightarrow> holesColumns b cs holes')"

text \<open>Lines 451 to 454: the absolute differences of the heights of adjacent columns.\<close>

fun bumpinessOf :: "int list \<Rightarrow> int" where
  "bumpinessOf (h # h' # hs) = \<bar>h - h'\<bar> + bumpinessOf (h' # hs)"
| "bumpinessOf hs = 0"

definition evaluateBoardState :: "BoardMatrix \<Rightarrow> ActivePiece \<Rightarrow> int \<Rightarrow> error + Score" where
  "evaluateBoardState tempBoard piece dropRow =
     (case currentMatrix piece of
        None \<Rightarrow> Inl TypeError
      | Some m \<Rightarrow>
          (case placeRows m dropRow (col (position piece)) (tempBoard, False) of
             Inl e \<Rightarrow> Inl e
           | Inr (boardAfterPlace, isPlacedGameOver) \<Rightarrow>
               if isPlacedGameOver then Inr NegInfinity
               else
                 (case clearLoop boardAfterPlace (BOARD_HEIGHT - 1) 0 of
                    Inl e \<Rightarrow> Inl e
                  | Inr (cleared, linesClearedCount) \<Rightarrow>
                      (case columnHeights cleared [0..<nat BOARD_WIDTH] of
                         Inl e \<Rightarrow> Inl e
                       | Inr heights \<Rightarrow>
                           (case holesColumns cleared [0..<nat BOARD_WIDTH] 0 of
                              Inl e \<Rightarrow> Inl e
                            | Inr holes \<Rightarrow>
                                Inr (Points (linesClearedCount * 5000 - sum_list heights * 10
                                             - holes * 75 - bumpinessOf heights * 3)))))))"

section \<open>Planner (calculateBestMove)\<close>

text \<open>
  Lines 465 to 476: the least and greatest column with a non-empty cell, and whether the
  matrix has no non-empty cell at all.
\<close>

fun extentCells :: "int list \<Rightarrow> int \<Rightarrow> int \<times> int \<times> bool \<Rightarrow> int \<times> int \<times> bool" where
  "extentCells [] c_shape st = st"
| "extentCells (cell # cells) c_shape (minCShape, maxCShape, pieceIsEmpty) =
     (if cell \<noteq> 0
      then extentCells cells (c_shape + 1) (min minCShape c_shape, max maxCShape c_shape, False)
      else extentCells cells (c_shape + 1) (minCShape, maxCShape, pieceIsEmpty))"

fun extentRows :: "int list list \<Rightarrow> int \<times> int \<times> bool \<Rightarrow> int \<times> int \<times> bool" where
  "extentRows [] st = st"
| "extentRows (r # rs) st = extentRows rs (extentCells r 0 st)"

text \<open>Lines 489 to 495: the first of the given rows at which the piece does not collide.\<close>

fun probeHigher :: "ActivePiece \<Rightarrow> int \<Rightarrow> int list \<Rightarrow> BoardMatrix \<Rightarrow> error + int option" where
  "probeHigher testPiece c [] b = Inr None"
| "probeHigher testPiece c (rOffset # rest) b =
     (case checkCollision testPiece \<lparr>row = rOffset, col = c\<rparr> b of
        Inl e \<Rightarrow> Inl e
      | Inr hit \<Rightarrow> if \<not> hit then Inr (Some rOffset) else probeHigher testPiece c rest b)"

text \<open>
  Lines 486 to 497: the row at which the simulation starts, \<open>None\<close> when the column is
  skipped.
\<close>

definition entryRow :: "ActivePiece \<Rightarrow> int \<Rightarrow> BoardMatrix \<Rightarrow> error + int option" where
  "entryRow testPiece c b =
     (case checkCollision testPiece \<lparr>row = 0, col = c\<rparr> b of
        Inl e \<Rightarrow> Inl e
      | Inr hit \<Rightarrow>
          if hit
          then
            (case probeHigher testPiece c [-1, -2, -3] b of
               Inl e \<Rightarrow> Inl e
             | Inr (Some rOffset) \<Rightarrow> Inr (Some rOffset)
             | Inr None \<Rightarrow>
                 (case checkCollision testPiece \<lparr>row = 0, col = c\<rparr> b of
                    Inl e \<Rightarrow> Inl e
                  | Inr again \<Rightarrow> if again then Inr None else Inr (Some 0)))
          else Inr (Some 0))"

text \<open>
  The body of the loop over the columns (lines 480 to 509) for rotation \<open>rot\<close> and column
  \<open>c\<close>: the new value of \<open>bestMove\<close>.
\<close>

definition tryColumn :: "ActivePiece \<Rightarrow> BoardMatrix \<Rightarrow> nat \<Rightarrow> int \<Rightarrow> AiMove option \<Rightarrow> (error + AiMove option) option" where
  "tryColumn piece currentBoard rot c bestMove =
     (let testPiece = piece\<lparr>rotation := rot, position := \<lparr>row = 0, col = c\<rparr>\<rparr>
      in case entryRow testPiece c currentBoard of
           Inl e \<Rightarrow> Some (Inl e)
         | Inr None \<Rightarrow> Some (Inr bestMove)
         | Inr (Some simulatedRow) \<Rightarrow>
             (case dropLoop testPiece simulatedRow c currentBoard of
                None \<Rightarrow> None
              | Some (Inl e) \<Rightarrow> Some (Inl e)
              | Some (Inr finalDropRow) \<Rightarrow>
                  (case evaluateBoardState currentBoard
                          (testPiece\<lparr>position := \<lparr>row = finalDropRow, col = c\<rparr>\<rparr>) finalDropRow of
                     Inl e \<Rightarrow> Some (Inl e)
                   | Inr scoreForMove \<Rightarrow>
                       (let candidate = \<lparr>targetRotation = rot, targetCol = c,
                                          moveScore = scoreForMove, finalRow = finalDropRow\<rparr>
                        in case bestMove of
                             None \<Rightarrow> Some (Inr (Some candidate))
                           | Some best \<Rightarrow>
                               if scoreGreater scoreForMove (moveScore best)
                               then Some (Inr (Some candidate))
                               else Some (Inr bestMove)))))"

fun columnsLoop :: "ActivePiece \<Rightarrow> BoardMatrix \<Rightarrow> nat \<Rightarrow> int list \<Rightarrow> AiMove option \<Rightarrow> (error + AiMove option) option" where
  "columnsLoop piece currentBoard rot [] bestMove = Some (Inr bestMove)"
| "columnsLoop piece currentBoard rot (c # cs) bestMove =
     (case tryColumn piece currentBoard rot c bestMove of
        None \<Rightarrow> None
      | Some (Inl e) \<Rightarrow> Some (Inl e)
      | Some (Inr bestMove') \<Rightarrow> columnsLoop piece currentBoard rot cs bestMove')"

text \<open>
  The loop over the rotations: \<open>ms\<close> are the matrices from index \<open>rot\<close> on.
  \<open>currentMatrix[0].length\<close> raises a \<open>TypeError\<close> on a matrix without rows.
\<close>

fun rotationsLoop :: "ActivePiece \<Rightarrow> BoardMatrix \<Rightarrow> int list list list \<Rightarrow> nat \<Rightarrow> AiMove option \<Rightarrow> (error + AiMove option) option" where
  "rotationsLoop piece currentBoard [] rot bestMove = Some (Inr bestMove)"
| "rotationsLoop piece currentBoard (m # ms) rot bestMove =
     (case m of
        [] \<Rightarrow> Some (Inl TypeError)
      | firstRow # _ \<Rightarrow>
          (let (minCShape, maxCShape, pieceIsEmpty) = extentRows m (int (length firstRow), - 1, True)
           in if pieceIsEmpty then rotationsLoop piece currentBoard ms (rot + 1) bestMove
              else
                (case columnsLoop piece currentBoard rot [- minCShape .. BOARD_WIDTH - 1 - maxCShape] bestMove of
                   None \<Rightarrow> None
                 | Some (Inl e) \<Rightarrow> Some (Inl e)
                 | Some (Inr bestMove') \<Rightarrow> rotationsLoop piece currentBoard ms (rot + 1) bestMove')))"

definition calculateBestMove :: "ActivePiece \<Rightarrow> BoardMatrix \<Rightarrow> (error + AiMove option) option" where
  "calculateBestMove piece currentBoard = rotationsLoop piece currentBoard (matrices piece) 0 None"

section \<open>AI driver (executeAiStep and the think timer)\<close>

text \<open>The loop over the vertical kick offsets of the driver (lines 547 to 556).\<close>

fun tryUpOffsets :: "ActivePiece \<Rightarrow> Position \<Rightarrow> int list \<Rightarrow> BoardMatrix \<Rightarrow> error + ActivePiece option" where
  "tryUpOffsets rotatedPieceState pos [] b = Inr None"
| "tryUpOffsets rotatedPieceState pos (upOffset # rest) b =
     (let testPositionUp = pos\<lparr>row := row pos + upOffset\<rparr>
      in case checkCollision rotatedPieceState testPositionUp b of
           Inl e \<Rightarrow> Inl e
         | Inr hit \<Rightarrow>
             if \<not> hit then Inr (Some (rotatedPieceState\<lparr>position := testPositionUp\<rparr>))
             else tryUpOffsets rotatedPieceState pos rest b)"

text \<open>
  Lines 530 to 557 of \<open>executeAiStep\<close>: the piece that \<open>setCurrentPiece\<close> receives, \<open>None\<close>
  when no placement is found (\<open>kicked\<close> is false) and the piece is locked.
\<close>

definition aiRotateAttempt :: "ActivePiece \<Rightarrow> nat \<Rightarrow> BoardMatrix \<Rightarrow> error + ActivePiece option" where
  "aiRotateAttempt piece target b =
     (let rotatedPieceState = piece\<lparr>rotation := target\<rparr>
      in case checkCollision rotatedPieceState (position piece) b of
           Inl e \<Rightarrow> Inl e
         | Inr hit \<Rightarrow>
             if \<not> hit then Inr (Some rotatedPieceState)
             else
               (case tryOffsets rotatedPieceState (position piece) [-1, 1, -2, 2] b of
                  Inl e \<Rightarrow> Inl e
                | Inr (Some kicked) \<Rightarrow> Inr (Some kicked)
                | Inr None \<Rightarrow>
                    if (shape_id (shape piece) = ''I'' \<or> shape_id (shape piece) = ''L''
                          \<or> shape_id (shape piece) = ''J'')
                       \<and> row (position piece) \<le> 1
                    then tryUpOffsets rotatedPieceState (position piece) [-1, -2] b
                    else Inr None))"

text \<open>
  After a successful action \<open>actionTaken\<close> is true, and the next step is scheduled when
  an AI action is still in progress.
\<close>

definition scheduleNextStep :: "GameSession \<Rightarrow> GameSession" where
  "scheduleNextStep s = (if aiActionInProgress s then s\<lparr>aiStepTimeout := True\<rparr> else s)"

definition executeAiStep :: "GameSession \<Rightarrow> nat \<Rightarrow> nat \<Rightarrow> error + GameSession" where
  "executeAiStep s rnd1 rnd2 =
     (let s0 = s\<lparr>aiStepTimeout := False\<rparr>
      in case (currentPiece s0, aiCurrentBestMove s0) of
           (Some piece, Some targetMove) \<Rightarrow>
             if \<not> isAiActive s0 \<or> gameState s0 \<noteq> Playing \<or> isLineClearingAnimationActive s0
             then Inr (s0\<lparr>aiActionInProgress := False, aiCurrentBestMove := None\<rparr>)
             else if rotation piece \<noteq> targetRotation targetMove
             then
               (case aiRotateAttempt piece (targetRotation targetMove) (board s0) of
                  Inl e \<Rightarrow> Inl e
                | Inr (Some p) \<Rightarrow> Inr (scheduleNextStep (s0\<lparr>currentPiece := Some p\<rparr>))
                | Inr None \<Rightarrow> lockPiece s0 (currentPiece s0) rnd1 rnd2)
             else if col (position piece) \<noteq> targetCol targetMove
             then
               (let direction = (if targetCol targetMove > col (position piece) then 1 else - 1)
                in case movePiece s0 0 direction of
                     Inl e \<Rightarrow> Inl e
                   | Inr (s', moved) \<Rightarrow>
                       if moved then Inr (scheduleNextStep s')
                       else lockPiece s0 (currentPiece s0) rnd1 rnd2)
             else if row (position piece) < finalRow targetMove
             then
               (case movePiece s0 1 0 of
                  Inl e \<Rightarrow> Inl e
                | Inr (s', moved) \<Rightarrow>
                    if moved then Inr (scheduleNextStep s')
                    else lockPiece s0 (currentPiece s0) rnd1 rnd2)
             else lockPiece s0 (currentPiece s0) rnd1 rnd2
         | _ \<Rightarrow> Inr (s0\<lparr>aiActionInProgress := False, aiCurrentBestMove := None\<rparr>))"

text \<open>Line 606: the delay of the think timer for a fall interval.\<close>

definition thinkTime :: "int \<Rightarrow> rat" where
  "thinkTime f = (if f > 0 then min (of_int f / 2) 200 else 100)"

text \<open>The effect of lines 593 to 632, up to the arming of the think timer.\<close>

definition aiThinkEffect :: "GameSession \<Rightarrow> GameSession" where
  "aiThinkEffect s =
     (if isLineClearingAnimationActive s
      then s\<lparr>aiThinkTimeout := None, aiStepTimeout := False,
             aiActionInProgress := False, aiCurrentBestMove := None\<rparr>
      else if isAiActive s \<and> gameState s = Playing \<and> currentPiece s \<noteq> None \<and> \<not> aiActionInProgress s
      then s\<lparr>aiActionInProgress := True, aiThinkTimeout := Some (thinkTime (fallInterval s))\<rparr>
      else s)"

text \<open>The callback of the think timer (lines 608 to 631).\<close>

definition aiThinkCallback :: "GameSession \<Rightarrow> nat \<Rightarrow> nat \<Rightarrow> (error + GameSession) option" where
  "aiThinkCallback s rnd1 rnd2 =
     (let s0 = s\<lparr>aiThinkTimeout := None\<rparr>
      in case currentPiece s0 of
           None \<Rightarrow> Some (Inr (s0\<lparr>aiActionInProgress := False\<rparr>))
         | Some piece \<Rightarrow>
             if \<not> isAiActive s0 \<or> gameState s0 \<noteq> Playing \<or> isLineClearingAnimationActive s0
             then Some (Inr (s0\<lparr>aiActionInProgress := False\<rparr>))
             else
               (case calculateBestMove piece (board s0) of
                  None \<Rightarrow> None
                | Some (Inl e) \<Rightarrow> Some (Inl e)
                | Some (Inr (Some bestMove)) \<Rightarrow>
                    Some (executeAiStep (s0\<lparr>aiCurrentBestMove := Some bestMove\<rparr>) rnd1 rnd2)
                | Some (Inr None) \<Rightarrow>
                    (case movePiece s0 1 0 of
                       Inl e \<Rightarrow> Some (Inl e)
                     | Inr (s', moved) \<Rightarrow>
                         if \<not> moved then Some (lockPiece s0 (currentPiece s0) rnd1 rnd2)
                         else Some (Inr (s'\<lparr>aiActionInProgress := False\<rparr>)))))"

section \<open>Vocabulary of the specification\<close>

text \<open>A board of the data model: \<open>H = 20\<close> rows of \<open>W = 10\<close> cells.\<close>

definition wfBoard :: "BoardMatrix \<Rightarrow> bool" where
  "wfBoard b = (length b = 20 \<and> list_all (\<lambda>r. length r = 10) b)"

text \<open>Cell \<open>(r, c)\<close> of a rotation matrix exists and is non-empty.\<close>

definition occupied :: "int list list \<Rightarrow> nat \<Rightarrow> nat \<Rightarrow> bool" where
  "occupied m r c = (r < length m \<and> c < length (m ! r) \<and> m ! r ! c \<noteq> 0)"

text \<open>An O-shaped piece as \<open>spawnNewPiece\<close> makes it (index 3 of \<open>TETROMINOES\<close>).\<close>

definition O_piece :: ActivePiece where
  "O_piece = spawnNewPiece 3"

text \<open>
  The board columns that a rotation matrix occupies when its left edge is at column
  \<open>c0\<close>, and the leftmost of them.
\<close>

definition pieceColumns :: "int list list \<Rightarrow> int \<Rightarrow> int set" where
  "pieceColumns m c0 = {c0 + int c | r c. occupied m r c}"

definition leftmostColumn :: "int list list \<Rightarrow> int \<Rightarrow> int" where
  "leftmostColumn m c0 = Min (pieceColumns m c0)"

text \<open>
  The score of the O-shaped piece dropped on the empty board with its left edge at column
  \<open>c\<close>: against a wall only one neighbouring column differs in height.
\<close>

definition O_score :: "int \<Rightarrow> int" where
  "O_score c = (if c = 0 \<or> c = 8 then - 46 else - 52)"

text \<open>The rotation index of a piece selects one of its matrices.\<close>

definition validPiece :: "ActivePiece \<Rightarrow> bool" where
  "validPiece p = (rotation p < length (matrices p))"



text \<open>
  A session in which the falling O-shaped piece completes the two bottom rows, below a row
  that holds a single cell, and the session after \<open>lockPiece\<close> has locked the piece.
\<close>

definition markerRow :: "CellValue list" where
  "markerRow = Num 7 # replicate 9 (Num 0)"

definition gapRow :: "CellValue list" where
  "gapRow = replicate 8 (Num 1) @ [Num 0, Num 0]"

definition fullRow :: "CellValue list" where
  "fullRow = replicate 8 (Num 1) @ [Num 4, Num 4]"

definition twoLineSession :: GameSession where
  "twoLineSession =
     \<lparr>gameState = Playing, score = 0, linesCleared = 29, level = 3,
      nextPiecePreview = Some O_piece, isAiActive = False,
      board = replicate 17 emptyRow @ [markerRow, gapRow, gapRow],
      currentPiece = Some (O_piece\<lparr>position := \<lparr>row = 18, col = 8\<rparr>\<rparr>),
      fallInterval = 900, lastFallTime = 0, aiActionInProgress = False,
      aiThinkTimeout = None, aiCurrentBestMove = None, aiStepTimeout = False,
      clearingRows = [], isLineClearingAnimationActive = False,
      lineClearEffectTimeout = None\<rparr>"

definition twoLineLocked :: GameSession where
  "twoLineLocked =
     twoLineSession\<lparr>board := replicate 17 emptyRow @ [markerRow, fullRow, fullRow],
       clearingRows := [19, 18], isLineClearingAnimationActive := True,
       currentPiece := None,
       lineClearEffectTimeout :=
         Some \<lparr>closureLinesCleared = 29, closureLevel = 3,
               closureNextPiecePreview = Some O_piece\<rparr>\<rparr>"

text \<open>The board, the active piece and the session counters of two sessions agree.\<close>

definition sameGame :: "GameSession \<Rightarrow> GameSession \<Rightarrow> bool" where
  "sameGame s s' =
     (board s' = board s \<and> currentPiece s' = currentPiece s \<and> score s' = score s
      \<and> linesCleared s' = linesCleared s \<and> level s' = level s
      \<and> fallInterval s' = fallInterval s)"

text \<open>An operation returned without an error and kept them.\<close>

definition keepsGame :: "GameSession \<Rightarrow> error + GameSession \<Rightarrow> bool" where
  "keepsGame s r = (case r of Inl e \<Rightarrow> False | Inr s' \<Rightarrow> sameGame s s')"

text \<open>
  The non-empty cell of a matrix row whose left edge is at board column \<open>col0\<close> that
  projects to board column \<open>C\<close>, if there is one; and the non-empty cell of a matrix
  anchored at \<open>(row0, col0)\<close> that projects to board cell \<open>(R, C)\<close>, if there is one.
\<close>

definition rowCellAt :: "int list \<Rightarrow> int \<Rightarrow> nat \<Rightarrow> int option" where
  "rowCellAt cells col0 C =
     (if col0 \<le> int C \<and> nat (int C - col0) < length cells \<and> cells ! nat (int C - col0) \<noteq> 0
      then Some (cells ! nat (int C - col0)) else None)"

definition pieceCellAt :: "int list list \<Rightarrow> int \<Rightarrow> int \<Rightarrow> nat \<Rightarrow> nat \<Rightarrow> int option" where
  "pieceCellAt m row0 col0 R C =
     (if row0 \<le> int R \<and> col0 \<le> int C \<and> occupied m (nat (int R - row0)) (nat (int C - col0))
      then Some (m ! nat (int R - row0) ! nat (int C - col0)) else None)"

text \<open>
  The settled board in the words of the specification: the original board with every
  non-empty cell of the piece written in at the piece's position. Only the 20 rows and 10
  columns of the board exist, so a cell of the piece that projects outside them is not
  part of the result.
\<close>

definition spec_settle :: "BoardMatrix \<Rightarrow> int list list \<Rightarrow> int \<Rightarrow> int \<Rightarrow> BoardMatrix" where
  "spec_settle b m row0 col0 =
     map (\<lambda>R. map (\<lambda>C. case pieceCellAt m row0 col0 R C of
                          Some v \<Rightarrow> Num v
                        | None \<Rightarrow> b ! R ! C) [0..<10]) [0..<20]"













text \<open>
  The vocabulary of the heuristic evaluation, in the words of the specification. Some
  occupied cell of the matrix, placed at row \<open>row0\<close>, lands at a row \<open>< 0\<close>.
\<close>

definition spec_aboveTop :: "int list list \<Rightarrow> int \<Rightarrow> bool" where
  "spec_aboveTop m row0 = (\<exists>r c. occupied m r c \<and> row0 + int r < 0)"

text \<open>A row is full if every cell is non-empty.\<close>

definition rowFull :: "CellValue list \<Rightarrow> bool" where
  "rowFull r = (\<forall>cell \<in> set r. cell \<noteq> Num 0)"

text \<open>The number of full rows, and the board with them removed and as many empty rows on top.\<close>

definition spec_linesCleared :: "BoardMatrix \<Rightarrow> nat" where
  "spec_linesCleared b = length (filter rowFull b)"

definition spec_clear :: "BoardMatrix \<Rightarrow> BoardMatrix" where
  "spec_clear b = replicate (spec_linesCleared b) emptyRow @ filter (\<lambda>r. \<not> rowFull r) b"

text \<open>
  The stack height of a column: the distance from its highest occupied cell to the bottom
  of the board, 0 for an empty column.
\<close>

definition spec_height :: "BoardMatrix \<Rightarrow> nat \<Rightarrow> int" where
  "spec_height b C =
     (if \<exists>R<20. b ! R ! C \<noteq> Num 0 then 20 - int (LEAST R. b ! R ! C \<noteq> Num 0) else 0)"

definition spec_aggregateHeight :: "BoardMatrix \<Rightarrow> int" where
  "spec_aggregateHeight b = (\<Sum>C<10. spec_height b C)"

text \<open>A hole: an empty cell with a non-empty cell somewhere above it in the same column.\<close>

definition isHole :: "BoardMatrix \<Rightarrow> nat \<Rightarrow> nat \<Rightarrow> bool" where
  "isHole b R C = (b ! R ! C = Num 0 \<and> (\<exists>R'<R. b ! R' ! C \<noteq> Num 0))"

definition spec_holes :: "BoardMatrix \<Rightarrow> nat" where
  "spec_holes b = card {(R, C). R < 20 \<and> C < 10 \<and> isHole b R C}"

text \<open>The sum of the absolute height differences of adjacent columns.\<close>

definition spec_bumpiness :: "BoardMatrix \<Rightarrow> int" where
  "spec_bumpiness b = (\<Sum>C<9. \<bar>spec_height b C - spec_height b (C + 1)\<bar>)"

text \<open>The evaluation of the specification for a matrix placed at \<open>(row0, col0)\<close>.\<close>

definition spec_evaluate :: "BoardMatrix \<Rightarrow> int list list \<Rightarrow> int \<Rightarrow> int \<Rightarrow> Score" where
  "spec_evaluate b m row0 col0 =
     (if spec_aboveTop m row0 then NegInfinity
      else
        (let settled = spec_settle b m row0 col0; cleared = spec_clear settled
         in Points (int (spec_linesCleared settled) * 5000 - spec_aggregateHeight cleared * 10
                    - int (spec_holes cleared) * 75 - spec_bumpiness cleared * 3)))"

section \<open>Properties of the collision check\<close>

lemma collidesCells_iff:
  "collidesCells cells boardRow boardCol b =
     (\<exists>c < length cells. cells ! c \<noteq> 0 \<and> cellBlocked b boardRow (boardCol + int c))"
proof (induction cells arbitrary: boardCol)
  case Nil
  show ?case by simp
next
  case (Cons cell cells)
  have "(\<exists>c < Suc (length cells). (cell # cells) ! c \<noteq> 0 \<and> cellBlocked b boardRow (boardCol + int c))
      = ((cell \<noteq> 0 \<and> cellBlocked b boardRow boardCol) \<or>
         (\<exists>c < length cells. cells ! c \<noteq> 0 \<and> cellBlocked b boardRow (boardCol + 1 + int c)))"
    (is "?L = (?A \<or> ?B)")
  proof
    assume ?L
    then obtain c where c: "c < Suc (length cells)" "(cell # cells) ! c \<noteq> 0"
      "cellBlocked b boardRow (boardCol + int c)" by blast
    show "?A \<or> ?B"
    proof (cases c)
      case 0
      with c show ?thesis by simp
    next
      case (Suc k)
      with c have "k < length cells" "cells ! k \<noteq> 0"
        "cellBlocked b boardRow (boardCol + 1 + int k)" by (simp_all add: add.assoc)
      then show ?thesis by blast
    qed
  next
    assume "?A \<or> ?B"
    then show ?L
    proof
      assume ?A
      then have "0 < Suc (length cells) \<and> (cell # cells) ! 0 \<noteq> 0
        \<and> cellBlocked b boardRow (boardCol + int 0)" by simp
      then show ?L by blast
    next
      assume ?B
      then obtain k where "k < length cells" "cells ! k \<noteq> 0"
        "cellBlocked b boardRow (boardCol + 1 + int k)" by blast
      then have "Suc k < Suc (length cells) \<and> (cell # cells) ! Suc k \<noteq> 0
        \<and> cellBlocked b boardRow (boardCol + int (Suc k))" by (simp add: add.assoc)
      then show ?L by blast
    qed
  qed
  with Cons.IH [of "boardCol + 1"] show ?case by auto
qed


lemma collidesRows_iff:
  "collidesRows m boardRow boardCol b =
     (\<exists>r < length m. \<exists>c < length (m ! r).
        m ! r ! c \<noteq> 0 \<and> cellBlocked b (boardRow + int r) (boardCol + int c))"
proof (induction m arbitrary: boardRow)
  case Nil
  show ?case by simp
next
  case (Cons cells m)
  let ?P = "\<lambda>cs R. \<exists>c < length cs. cs ! c \<noteq> 0 \<and> cellBlocked b R (boardCol + int c)"
  have "(\<exists>r < Suc (length m). ?P ((cells # m) ! r) (boardRow + int r))
      = (?P cells boardRow \<or> (\<exists>r < length m. ?P (m ! r) (boardRow + 1 + int r)))"
    (is "?L = (?A \<or> ?B)")
  proof
    assume ?L
    then obtain r where r: "r < Suc (length m)" "?P ((cells # m) ! r) (boardRow + int r)"
      by blast
    show "?A \<or> ?B"
    proof (cases r)
      case 0
      with r show ?thesis by simp
    next
      case (Suc k)
      with r have "k < length m" "?P (m ! k) (boardRow + 1 + int k)"
        by (simp_all add: add.assoc)
      then show ?thesis by blast
    qed
  next
    assume "?A \<or> ?B"
    then show ?L
    proof
      assume ?A
      then have "0 < Suc (length m) \<and> ?P ((cells # m) ! 0) (boardRow + int 0)" by simp
      then show ?L by blast
    next
      assume ?B
      then obtain k where "k < length m" "?P (m ! k) (boardRow + 1 + int k)" by blast
      then have "Suc k < Suc (length m) \<and> ?P ((cells # m) ! Suc k) (boardRow + int (Suc k))"
        by (simp add: add.assoc)
      then show ?L by blast
    qed
  qed
  then have eq: "(?A \<or> ?B) = ?L" by simp
  have "collidesRows (cells # m) boardRow boardCol b
      = (?A \<or> collidesRows m (boardRow + 1) boardCol b)"
    by (auto simp: collidesCells_iff)
  also have "\<dots> = (?A \<or> ?B)"
    by (simp only: Cons.IH [of "boardRow + 1"])
  also note eq
  finally show ?case by simp
qed

lemma wfBoard_row:
  assumes "wfBoard b" and "0 \<le> R" and "R < 20"
  shows "js_row b R = Some (b ! nat R)" and "length (b ! nat R) = 10"
  using assms by (auto simp: wfBoard_def js_row_def list_all_length)

lemma wfBoard_cellBlocked:
  assumes "wfBoard b"
  shows "cellBlocked b R C =
     (R \<ge> 20 \<or> C < 0 \<or> C \<ge> 10 \<or> (R \<ge> 0 \<and> b ! nat R ! nat C \<noteq> Num 0))"
proof (cases "0 \<le> R \<and> R < 20 \<and> 0 \<le> C \<and> C < 10")
  case True
  with wfBoard_row [OF assms, of R] show ?thesis
    by (simp add: cellBlocked_def BOARD_HEIGHT_def BOARD_WIDTH_def js_cell_def)
next
  case False
  then show ?thesis
    by (auto simp: cellBlocked_def BOARD_HEIGHT_def BOARD_WIDTH_def)
qed

lemma wfBoard_createEmptyBoard: "wfBoard createEmptyBoard"
  by (simp add: wfBoard_def createEmptyBoard_def emptyRow_def BOARD_HEIGHT_def BOARD_WIDTH_def
      list_all_iff)

text \<open>
  Claim C2. On a board of the data model (20 rows of 10 cells) and for a piece whose
  rotation index selects one of its matrices, \<open>checkCollision\<close> reports a collision if
  and only if some non-empty cell of the current rotation matrix projects to a row
  \<open>\<ge> 20\<close>, or to a column \<open>< 0\<close> or \<open>\<ge> 10\<close>, or to a row \<open>\<ge> 0\<close> whose board cell is not 0.
  The board is consulted for rows \<open>\<ge> 0\<close> only, so a cell that projects to a negative row
  never collides with the contents of the board.
\<close>

theorem checkCollision_illegal_iff:
  assumes "wfBoard b" and "rotation piece < length (matrices piece)"
  shows "checkCollision piece pos b =
     Inr (\<exists>r c. occupied (matrices piece ! rotation piece) r c \<and>
            (row pos + int r \<ge> 20 \<or> col pos + int c < 0 \<or> col pos + int c \<ge> 10 \<or>
             (row pos + int r \<ge> 0 \<and> b ! nat (row pos + int r) ! nat (col pos + int c) \<noteq> Num 0)))"
  using assms
  by (auto simp: checkCollision_def currentMatrix_def collidesRows_iff wfBoard_cellBlocked
      occupied_def)

theorem checkCollision_illegal_iff_witness:
  "wfBoard createEmptyBoard \<and> rotation (spawnNewPiece 3) < length (matrices (spawnNewPiece 3)) \<and>
   checkCollision (spawnNewPiece 3) \<lparr>row = 19, col = 4\<rparr> createEmptyBoard =
     Inr (\<exists>r c. occupied (matrices (spawnNewPiece 3) ! rotation (spawnNewPiece 3)) r c \<and>
            (row \<lparr>row = 19, col = 4\<rparr> + int r \<ge> 20 \<or> col \<lparr>row = 19, col = 4\<rparr> + int c < 0
             \<or> col \<lparr>row = 19, col = 4\<rparr> + int c \<ge> 10 \<or>
             (row \<lparr>row = 19, col = 4\<rparr> + int r \<ge> 0 \<and>
              createEmptyBoard ! nat (row \<lparr>row = 19, col = 4\<rparr> + int r)
                ! nat (col \<lparr>row = 19, col = 4\<rparr> + int c) \<noteq> Num 0)))"
proof -
  have h1: "wfBoard createEmptyBoard" by (rule wfBoard_createEmptyBoard)
  have h2: "rotation (spawnNewPiece 3) < length (matrices (spawnNewPiece 3))"
    by (simp add: spawnNewPiece_def getRotations_def Let_def)
  show ?thesis
    using h1 h2 checkCollision_illegal_iff [OF h1 h2, of "\<lparr>row = 19, col = 4\<rparr>"] by blast
qed

section \<open>The think delay of the AI driver\<close>

text \<open>
  Claim C8, as the code has it. For every fall interval \<open>f > 0\<close> the think delay is half
  of \<open>f\<close>, capped at 200. The value 100 of the source is the delay for \<open>f \<le> 0\<close> only; it
  is not a lower bound of the delay.
\<close>

theorem thinkTime_half_capped:
  "0 < f \<Longrightarrow> thinkTime f = min (of_int f / 2) 200"
  by (simp add: thinkTime_def)

theorem thinkTime_half_capped_witness:
  "0 < (150::int) \<and> thinkTime 150 = min (of_int 150 / 2) 200"
  using thinkTime_half_capped [of 150] by simp

text \<open>The delay falls below 100: at a fall interval of 100 it is 50.\<close>

theorem thinkTime_below_minimum:
  "0 < (100::int) \<and> thinkTime 100 = 50 \<and> \<not> (100 \<le> thinkTime 100)"
  by (simp add: thinkTime_def)

section \<open>The planner on the empty board\<close>

lemma O_piece_eq:
  "O_piece = \<lparr>shape = O_SHAPE, position = \<lparr>row = 0, col = 4\<rparr>, rotation = 0,
     matrices = [[[4, 4], [4, 4]], [[4, 4], [4, 4]], [[4, 4], [4, 4]], [[4, 4], [4, 4]]]\<rparr>"
  by code_simp

lemma O_currentMatrix:
  "rot < 4 \<Longrightarrow> currentMatrix (O_piece\<lparr>rotation := rot, position := p\<rparr>) = Some [[4, 4], [4, 4]]"
proof -
  assume "rot < 4"
  then have "rot = 0 \<or> rot = 1 \<or> rot = 2 \<or> rot = 3" by arith
  then show ?thesis
    by (auto simp: currentMatrix_def O_piece_eq)
qed

lemma empty_cell:
  "R < 20 \<Longrightarrow> C < 10 \<Longrightarrow> createEmptyBoard ! R ! C = Num 0"
  by (simp add: createEmptyBoard_def emptyRow_def BOARD_HEIGHT_def BOARD_WIDTH_def)

lemma cellBlocked_empty:
  "cellBlocked createEmptyBoard R C = (R \<ge> 20 \<or> C < 0 \<or> C \<ge> 10)"
proof (cases "0 \<le> R \<and> R < 20 \<and> 0 \<le> C \<and> C < 10")
  case True
  then have "createEmptyBoard ! nat R ! nat C = Num 0"
    by (intro empty_cell) auto
  with True show ?thesis
    by (simp add: wfBoard_cellBlocked [OF wfBoard_createEmptyBoard])
next
  case False
  then show ?thesis
    by (auto simp: wfBoard_cellBlocked [OF wfBoard_createEmptyBoard])
qed

lemma O_collides:
  "collidesRows [[4, 4], [4, 4]] R C createEmptyBoard = (R \<ge> 19 \<or> C < 0 \<or> C \<ge> 9)"
  by (simp add: cellBlocked_empty)

lemma O_checkCollision:
  "rot < 4 \<Longrightarrow> checkCollision (O_piece\<lparr>rotation := rot, position := p\<rparr>) pos createEmptyBoard
     = Inr (row pos \<ge> 19 \<or> col pos < 0 \<or> col pos \<ge> 9)"
  by (simp add: checkCollision_def O_currentMatrix O_collides del: collidesRows.simps)

lemma O_dropLoop:
  assumes "rot < 4" and "0 \<le> c" and "c \<le> 8"
  shows "R \<le> 18 \<Longrightarrow> dropLoop (O_piece\<lparr>rotation := rot, position := p\<rparr>) R c createEmptyBoard = Some (Inr 18)"
proof (induction "nat (18 - R)" arbitrary: R)
  case 0
  then have "R = 18" by simp
  then show ?case
    using assms by (subst dropLoop.simps) (simp add: O_checkCollision)
next
  case (Suc n)
  then have "R < 18" "n = nat (18 - (R + 1))" "R + 1 \<le> 18" by simp_all
  with Suc.hyps(1) [of "R + 1"] assms show ?case
    by (subst dropLoop.simps) (simp add: O_checkCollision)
qed


lemma evaluateBoardState_cong:
  "currentMatrix p = currentMatrix q \<Longrightarrow> col (position p) = col (position q)
   \<Longrightarrow> evaluateBoardState b p d = evaluateBoardState b q d"
  by (auto simp: evaluateBoardState_def split: option.split)

lemma O_eval_0:
  "evaluateBoardState createEmptyBoard (O_piece\<lparr>position := \<lparr>row = 18, col = 0\<rparr>\<rparr>) 18 = Inr (Points (- 46))"
  by code_simp

lemma O_eval_1:
  "evaluateBoardState createEmptyBoard (O_piece\<lparr>position := \<lparr>row = 18, col = 1\<rparr>\<rparr>) 18 = Inr (Points (- 52))"
  by code_simp

lemma O_eval_2:
  "evaluateBoardState createEmptyBoard (O_piece\<lparr>position := \<lparr>row = 18, col = 2\<rparr>\<rparr>) 18 = Inr (Points (- 52))"
  by code_simp

lemma O_eval_3:
  "evaluateBoardState createEmptyBoard (O_piece\<lparr>position := \<lparr>row = 18, col = 3\<rparr>\<rparr>) 18 = Inr (Points (- 52))"
  by code_simp

lemma O_eval_4:
  "evaluateBoardState createEmptyBoard (O_piece\<lparr>position := \<lparr>row = 18, col = 4\<rparr>\<rparr>) 18 = Inr (Points (- 52))"
  by code_simp

lemma O_eval_5:
  "evaluateBoardState createEmptyBoard (O_piece\<lparr>position := \<lparr>row = 18, col = 5\<rparr>\<rparr>) 18 = Inr (Points (- 52))"
  by code_simp

lemma O_eval_6:
  "evaluateBoardState createEmptyBoard (O_piece\<lparr>position := \<lparr>row = 18, col = 6\<rparr>\<rparr>) 18 = Inr (Points (- 52))"
  by code_simp

lemma O_eval_7:
  "evaluateBoardState createEmptyBoard (O_piece\<lparr>position := \<lparr>row = 18, col = 7\<rparr>\<rparr>) 18 = Inr (Points (- 52))"
  by code_simp

lemma O_eval_8:
  "evaluateBoardState createEmptyBoard (O_piece\<lparr>position := \<lparr>row = 18, col = 8\<rparr>\<rparr>) 18 = Inr (Points (- 46))"
  by code_simp


lemma O_eval:
  assumes "rot < 4" and "0 \<le> c" and "c \<le> 8"
  shows "evaluateBoardState createEmptyBoard
           (O_piece\<lparr>rotation := rot, position := \<lparr>row = 18, col = c\<rparr>\<rparr>) 18
         = Inr (Points (O_score c))"
proof -
  have cm: "currentMatrix (O_piece\<lparr>rotation := rot, position := \<lparr>row = 18, col = c\<rparr>\<rparr>)
      = currentMatrix (O_piece\<lparr>position := \<lparr>row = 18, col = c\<rparr>\<rparr>)"
    using O_currentMatrix [OF assms(1)]
    by (simp add: currentMatrix_def O_piece_eq)
  have eq: "evaluateBoardState createEmptyBoard
           (O_piece\<lparr>rotation := rot, position := \<lparr>row = 18, col = c\<rparr>\<rparr>) 18
      = evaluateBoardState createEmptyBoard (O_piece\<lparr>position := \<lparr>row = 18, col = c\<rparr>\<rparr>) 18"
    by (rule evaluateBoardState_cong [OF cm]) simp
  from assms have "c = 0 \<or> c = 1 \<or> c = 2 \<or> c = 3 \<or> c = 4 \<or> c = 5 \<or> c = 6 \<or> c = 7 \<or> c = 8"
    by arith
  then show ?thesis
    unfolding eq
    by (elim disjE) (simp_all add: O_score_def O_eval_0 O_eval_1 O_eval_2 O_eval_3 O_eval_4
        O_eval_5 O_eval_6 O_eval_7 O_eval_8)
qed

lemma O_tryColumn:
  assumes "rot < 4" and "0 \<le> c" and "c \<le> 8"
  shows "tryColumn O_piece createEmptyBoard rot c best =
     Some (Inr (case best of
        None \<Rightarrow> Some \<lparr>targetRotation = rot, targetCol = c, moveScore = Points (O_score c), finalRow = 18\<rparr>
      | Some b \<Rightarrow>
          if scoreGreater (Points (O_score c)) (moveScore b)
          then Some \<lparr>targetRotation = rot, targetCol = c, moveScore = Points (O_score c), finalRow = 18\<rparr>
          else best))"
  using assms
  by (simp add: tryColumn_def entryRow_def O_checkCollision O_dropLoop O_eval Let_def
      split: option.split)


lemma upto_0_8: "[0 .. 8 :: int] = [0, 1, 2, 3, 4, 5, 6, 7, 8]"
  by code_simp

lemma O_columns_first:
  "rot < 4 \<Longrightarrow> columnsLoop O_piece createEmptyBoard rot [0 .. 8] None =
     Some (Inr (Some \<lparr>targetRotation = rot, targetCol = 0, moveScore = Points (- 46), finalRow = 18\<rparr>))"
  by (simp add: upto_0_8 O_tryColumn O_score_def)

lemma O_columns_later:
  "rot < 4 \<Longrightarrow> moveScore best = Points (- 46) \<Longrightarrow>
   columnsLoop O_piece createEmptyBoard rot [0 .. 8] (Some best) = Some (Inr (Some best))"
  by (simp add: upto_0_8 O_tryColumn O_score_def)

lemma O_extent:
  "extentRows [[4, 4], [4, 4]] (int (length [4, 4 :: int]), - 1, True) = (0, 1, False)"
  by simp

lemma O_calculateBestMove:
  "calculateBestMove O_piece createEmptyBoard =
     Some (Inr (Some \<lparr>targetRotation = 0, targetCol = 0, moveScore = Points (- 46), finalRow = 18\<rparr>))"
proof -
  have ms: "matrices O_piece = [[[4, 4], [4, 4]], [[4, 4], [4, 4]], [[4, 4], [4, 4]], [[4, 4], [4, 4]]]"
    by (simp add: O_piece_eq)
  show ?thesis
    unfolding calculateBestMove_def ms
    by (simp add: O_extent BOARD_WIDTH_def O_columns_first O_columns_later)
qed

lemma O_pieceColumns: "pieceColumns [[4, 4], [4, 4]] c0 = {c0, c0 + 1}"
proof (rule set_eqI)
  fix x
  have occ: "occupied [[4, 4], [4, 4]] r c = (r < 2 \<and> c < 2)" for r c
    by (auto simp: occupied_def nth_Cons' less_Suc_eq numeral_2_eq_2)
  show "x \<in> pieceColumns [[4, 4], [4, 4]] c0 \<longleftrightarrow> x \<in> {c0, c0 + 1}"
  proof
    assume "x \<in> pieceColumns [[4, 4], [4, 4]] c0"
    then obtain r c where x: "x = c0 + int c" and c: "c < 2"
      by (auto simp: pieceColumns_def occ)
    from c have "c = 0 \<or> c = 1" by arith
    with x show "x \<in> {c0, c0 + 1}" by auto
  next
    assume "x \<in> {c0, c0 + 1}"
    then have "x = c0 + int 0 \<or> x = c0 + int 1" by auto
    then obtain c :: nat where "x = c0 + int c" "c < 2" by fastforce
    then have "x = c0 + int c \<and> occupied [[4, 4], [4, 4]] 0 c"
      by (simp add: occ)
    then show "x \<in> pieceColumns [[4, 4], [4, 4]] c0"
      unfolding pieceColumns_def by blast
  qed
qed

text \<open>
  Claim C4, as the code has it. On the empty board the planner, for the O-shaped piece,
  returns rotation 0, target column 0 and final row 18 with score \<open>-46\<close>: the leftmost
  occupied column of the placed piece is 0, not 4. The columns 0 and 8 share the best score
  (against a wall the bumpiness is 2 instead of 4); a later candidate replaces the best
  one only when its score is strictly greater, so the first one found, column 0 at
  rotation 0, stays.
\<close>

theorem planner_O_empty_board:
  "calculateBestMove O_piece createEmptyBoard =
     Some (Inr (Some \<lparr>targetRotation = 0, targetCol = 0, moveScore = Points (- 46), finalRow = 18\<rparr>))
   \<and> leftmostColumn (matrices O_piece ! 0) 0 = 0"
proof -
  have "matrices O_piece ! 0 = [[4, 4], [4, 4]]"
    by (simp add: O_piece_eq)
  then show ?thesis
    by (simp add: O_calculateBestMove leftmostColumn_def O_pieceColumns)
qed

text \<open>The leftmost occupied column of the planned placement is not 4.\<close>

theorem planner_O_not_centred:
  "calculateBestMove O_piece createEmptyBoard =
     Some (Inr (Some \<lparr>targetRotation = 0, targetCol = 0, moveScore = Points (- 46), finalRow = 18\<rparr>))
   \<and> leftmostColumn (matrices O_piece ! 0) 0 \<noteq> 4"
proof -
  have "matrices O_piece ! 0 = [[4, 4], [4, 4]]"
    by (simp add: O_piece_eq)
  then show ?thesis
    by (simp add: O_calculateBestMove leftmostColumn_def O_pieceColumns)
qed

section \<open>Safe integers\<close>












section \<open>The end of the clear animation\<close>

text \<open>
  Claim C1 fails on the code. The falling piece completes rows 18 and 19; \<open>lockPiece\<close>
  detects the rows \<open>[19, 18]\<close>. The callback splices row 19 out and puts an empty row in
  front, which moves every remaining row down by one: index 18 now holds the former row
  17. The second splice removes that row, which was not full, and the former row 18,
  which is full, stays at the bottom of the board.
\<close>

theorem clear_two_rows_removes_wrong_row:
  "lockPiece twoLineSession (currentPiece twoLineSession) 3 3 = Inr twoLineLocked
   \<and> clearingRows twoLineLocked = [19, 18]
   \<and> board twoLineLocked = replicate 17 emptyRow @ [markerRow, fullRow, fullRow]
   \<and> map_sum (\<lambda>e. e) board (clearComplete twoLineLocked 0 3 3)
       = Inr (replicate 19 emptyRow @ [fullRow])"
proof -
  have "lockPiece twoLineSession (currentPiece twoLineSession) 3 3 = Inr twoLineLocked"
    by code_simp
  moreover have "map_sum (\<lambda>e. e) board (clearComplete twoLineLocked 0 3 3)
       = Inr (replicate 19 emptyRow @ [fullRow])"
    by code_simp
  ultimately show ?thesis
    by (simp add: twoLineLocked_def)
qed


















section \<open>The clearing phase\<close>

lemma lockPiece_clearing:
  "isLineClearingAnimationActive s \<Longrightarrow> keepsGame s (lockPiece s p rnd1 rnd2)"
  by (cases p) (simp_all add: lockPiece_def keepsGame_def sameGame_def)

lemma movePiece_clearing:
  "isLineClearingAnimationActive s \<Longrightarrow> movePiece s dRow dCol = Inr (s, False)"
  by (simp add: movePiece_def split: option.split)

lemma moveDown_clearing:
  "isLineClearingAnimationActive s \<Longrightarrow> moveDown s rnd1 rnd2 = Inr s"
  by (simp add: moveDown_def)

lemma rotatePiece_clearing:
  "isLineClearingAnimationActive s \<Longrightarrow> rotatePiece s = Inr s"
  by (simp add: rotatePiece_def split: option.split)

lemma hardDrop_clearing:
  "isLineClearingAnimationActive s \<Longrightarrow> hardDrop s rnd1 rnd2 = Some (Inr s)"
  by (simp add: hardDrop_def split: option.split)

lemma handleKeyDown_clearing:
  "isLineClearingAnimationActive s \<Longrightarrow> handleKeyDown s key now rnd1 rnd2 = Some (Inr s)"
  by (simp add: handleKeyDown_def)

lemma gravityTick_clearing:
  "isLineClearingAnimationActive s \<Longrightarrow> gravityTick s timestamp rnd1 rnd2 = Inr s"
  by (simp add: gravityTick_def)

lemma executeAiStep_clearing:
  "isLineClearingAnimationActive s \<Longrightarrow>
   executeAiStep s rnd1 rnd2
     = Inr (s\<lparr>aiStepTimeout := False, aiActionInProgress := False, aiCurrentBestMove := None\<rparr>)"
  by (simp add: executeAiStep_def Let_def split: option.split)

lemma aiThinkEffect_clearing:
  "isLineClearingAnimationActive s \<Longrightarrow>
   aiThinkEffect s = s\<lparr>aiThinkTimeout := None, aiStepTimeout := False,
                        aiActionInProgress := False, aiCurrentBestMove := None\<rparr>"
  by (simp add: aiThinkEffect_def)

lemma aiThinkCallback_clearing:
  "isLineClearingAnimationActive s \<Longrightarrow>
   aiThinkCallback s rnd1 rnd2 = Some (Inr (s\<lparr>aiThinkTimeout := None, aiActionInProgress := False\<rparr>))"
  by (simp add: aiThinkCallback_def Let_def split: option.split)

text \<open>
  Claim C9. While the clear animation is active, a gravity tick, every key command
  (through the key handler or directly: move, soft drop, rotate, hard drop), a step of the
  AI driver, the think effect and the think callback of the driver, and \<open>lockPiece\<close> all
  return without an error and leave the board, the active piece, the score, the total of
  lines, the level and the fall interval as they are. The only operation of the model
  that changes the board in this phase is the callback of the clear animation.
\<close>

theorem clearing_phase_is_frozen:
  assumes "isLineClearingAnimationActive s"
  shows "gravityTick s timestamp rnd1 rnd2 = Inr s
     \<and> handleKeyDown s key now rnd1 rnd2 = Some (Inr s)
     \<and> movePiece s dRow dCol = Inr (s, False)
     \<and> moveDown s rnd1 rnd2 = Inr s
     \<and> rotatePiece s = Inr s
     \<and> hardDrop s rnd1 rnd2 = Some (Inr s)
     \<and> keepsGame s (executeAiStep s rnd1 rnd2)
     \<and> sameGame s (aiThinkEffect s)
     \<and> (\<exists>r. aiThinkCallback s rnd1 rnd2 = Some r \<and> keepsGame s r)
     \<and> keepsGame s (lockPiece s p rnd1 rnd2)"
  using assms lockPiece_clearing [OF assms, of p rnd1 rnd2]
  by (simp add: gravityTick_clearing handleKeyDown_clearing movePiece_clearing moveDown_clearing
      rotatePiece_clearing hardDrop_clearing executeAiStep_clearing aiThinkEffect_clearing
      aiThinkCallback_clearing keepsGame_def sameGame_def)

theorem clearing_phase_is_frozen_witness:
  "isLineClearingAnimationActive twoLineLocked
   \<and> gravityTick twoLineLocked 1000 3 3 = Inr twoLineLocked
   \<and> handleKeyDown twoLineLocked Space 0 3 3 = Some (Inr twoLineLocked)
   \<and> movePiece twoLineLocked 0 1 = Inr (twoLineLocked, False)
   \<and> moveDown twoLineLocked 3 3 = Inr twoLineLocked
   \<and> rotatePiece twoLineLocked = Inr twoLineLocked
   \<and> hardDrop twoLineLocked 3 3 = Some (Inr twoLineLocked)
   \<and> keepsGame twoLineLocked (executeAiStep twoLineLocked 3 3)
   \<and> sameGame twoLineLocked (aiThinkEffect twoLineLocked)
   \<and> (\<exists>r. aiThinkCallback twoLineLocked 3 3 = Some r \<and> keepsGame twoLineLocked r)
   \<and> keepsGame twoLineLocked (lockPiece twoLineLocked (Some O_piece) 3 3)"
proof -
  have h: "isLineClearingAnimationActive twoLineLocked"
    by (simp add: twoLineLocked_def)
  show ?thesis
    using h clearing_phase_is_frozen [OF h, of 1000 3 3 Space 0 0 1 "Some O_piece"]
    by simp
qed

section \<open>Settling a piece\<close>

lemma rowCellAt_Cons:
  "rowCellAt (cell # cells) col0 C =
     (if int C = col0 \<and> cell \<noteq> 0 then Some cell else rowCellAt cells (col0 + 1) C)"
proof (cases "col0 < int C")
  case True
  then have "nat (int C - col0) = Suc (nat (int C - (col0 + 1)))" by linarith
  with True show ?thesis by (simp add: rowCellAt_def)
next
  case False
  then show ?thesis by (auto simp: rowCellAt_def)
qed

lemma pieceCellAt_rows:
  "pieceCellAt m row0 col0 R C =
     (if row0 \<le> int R \<and> nat (int R - row0) < length m
      then rowCellAt (m ! nat (int R - row0)) col0 C else None)"
  by (auto simp: pieceCellAt_def rowCellAt_def occupied_def)

lemma pieceCellAt_Nil: "pieceCellAt [] row0 col0 R C = None"
  by (simp add: pieceCellAt_rows)

lemma pieceCellAt_Cons:
  "pieceCellAt (r # rs) row0 col0 R C =
     (if int R = row0 then rowCellAt r col0 C else pieceCellAt rs (row0 + 1) col0 R C)"
proof (cases "row0 < int R")
  case True
  then have "nat (int R - row0) = Suc (nat (int R - (row0 + 1)))" by linarith
  with True show ?thesis by (simp add: pieceCellAt_rows)
next
  case False
  then show ?thesis by (auto simp: pieceCellAt_rows)
qed

lemma js_set_wfBoard:
  assumes "wfBoard b" and "0 \<le> R" and "R < 20" and "0 \<le> C" and "C < 10"
  shows "js_set b R C v = Inr (b[nat R := (b ! nat R)[nat C := v]])"
    and "wfBoard (b[nat R := (b ! nat R)[nat C := v]])"
proof -
  from wfBoard_row [OF assms(1-3)] have r: "js_row b R = Some (b ! nat R)"
    and l: "length (b ! nat R) = 10" by simp_all
  from l assms(4,5) have "nat C < length (b ! nat R)" by simp
  then show "js_set b R C v = Inr (b[nat R := (b ! nat R)[nat C := v]])"
    by (simp add: js_set_def r js_row_set_def)
  from assms(1-3) l show "wfBoard (b[nat R := (b ! nat R)[nat C := v]])"
    by (auto simp: wfBoard_def list_all_length nth_list_update)
qed

lemma wfBoard_nth_update:
  assumes "wfBoard b" and "0 \<le> R" and "R < 20" and "0 \<le> C" and "C < 10"
    and "i < 20" and "j < 10"
  shows "b[nat R := (b ! nat R)[nat C := v]] ! i ! j
     = (if int i = R \<and> int j = C then v else b ! i ! j)"
proof -
  from assms(1) have len: "length b = 20" by (simp add: wfBoard_def)
  from wfBoard_row [OF assms(1-3)] have l: "length (b ! nat R) = 10" by simp
  show ?thesis
  proof (cases "int i = R")
    case True
    then have R: "nat R = i" by simp
    from assms(4,5) l R have c: "nat C < length (b ! i)" by simp
    from assms(4) have eq: "(int j = C) = (nat C = j)" by auto
    have "b[nat R := (b ! nat R)[nat C := v]] ! i ! j = (b ! i)[nat C := v] ! j"
      using R len assms(6) by simp
    also have "\<dots> = (if nat C = j then v else b ! i ! j)"
      using c by (simp add: nth_list_update)
    finally show ?thesis using True eq by simp
  next
    case False
    then have "nat R \<noteq> i" using assms(2) by auto
    with False show ?thesis by simp
  qed
qed

lemma settleCells_char:
  assumes "wfBoard b"
  shows "\<exists>nb. settleCells cells R C0 b = Inr nb \<and> wfBoard nb \<and>
     (\<forall>i<20. \<forall>j<10. nb ! i ! j =
        (if int i = R then (case rowCellAt cells C0 j of Some v \<Rightarrow> Num v | None \<Rightarrow> b ! i ! j)
         else b ! i ! j))"
  using assms
proof (induction cells arbitrary: C0 b)
  case Nil
  then show ?case by (simp add: rowCellAt_def)
next
  case (Cons cell cells)
  show ?case
  proof (cases "cell \<noteq> 0 \<and> 0 \<le> R \<and> R < 20 \<and> 0 \<le> C0 \<and> C0 < 10")
    case True
    let ?b1 = "b[nat R := (b ! nat R)[nat C0 := Num cell]]"
    from True Cons.prems have set: "js_set b R C0 (Num cell) = Inr ?b1" and wf1: "wfBoard ?b1"
      by (simp_all add: js_set_wfBoard)
    from Cons.IH [OF wf1, of "C0 + 1"] obtain nb where
      nb: "settleCells cells R (C0 + 1) ?b1 = Inr nb" "wfBoard nb"
      and cells: "\<forall>i<20. \<forall>j<10. nb ! i ! j =
        (if int i = R then (case rowCellAt cells (C0 + 1) j of Some v \<Rightarrow> Num v | None \<Rightarrow> ?b1 ! i ! j)
         else ?b1 ! i ! j)"
      by blast
    have "nb ! i ! j =
        (if int i = R then (case rowCellAt (cell # cells) C0 j of Some v \<Rightarrow> Num v | None \<Rightarrow> b ! i ! j)
         else b ! i ! j)" if "i < 20" "j < 10" for i j
    proof -
      have upd: "?b1 ! i ! j = (if int i = R \<and> int j = C0 then Num cell else b ! i ! j)"
        using True Cons.prems that by (intro wfBoard_nth_update) simp_all
      have "rowCellAt cells (C0 + 1) j = None" if "int j = C0"
        using that by (simp add: rowCellAt_def)
      with cells that upd True show ?thesis
        by (auto simp: rowCellAt_Cons split: option.split)
    qed
    with nb set True show ?thesis
      by (simp add: BOARD_HEIGHT_def BOARD_WIDTH_def)
  next
    case False
    from Cons.IH [OF Cons.prems, of "C0 + 1"] obtain nb where
      nb: "settleCells cells R (C0 + 1) b = Inr nb" "wfBoard nb"
      and cells: "\<forall>i<20. \<forall>j<10. nb ! i ! j =
        (if int i = R then (case rowCellAt cells (C0 + 1) j of Some v \<Rightarrow> Num v | None \<Rightarrow> b ! i ! j)
         else b ! i ! j)"
      by blast
    have "nb ! i ! j =
        (if int i = R then (case rowCellAt (cell # cells) C0 j of Some v \<Rightarrow> Num v | None \<Rightarrow> b ! i ! j)
         else b ! i ! j)" if "i < 20" "j < 10" for i j
      using cells that False by (auto simp: rowCellAt_Cons)
    moreover have "settleCells (cell # cells) R C0 b = settleCells cells R (C0 + 1) b"
      using False by (auto simp: BOARD_HEIGHT_def BOARD_WIDTH_def)
    ultimately show ?thesis using nb by simp
  qed
qed

lemma settleRows_char:
  assumes "wfBoard b"
  shows "\<exists>nb. settleRows m R0 C0 b = Inr nb \<and> wfBoard nb \<and>
     (\<forall>i<20. \<forall>j<10. nb ! i ! j =
        (case pieceCellAt m R0 C0 i j of Some v \<Rightarrow> Num v | None \<Rightarrow> b ! i ! j))"
  using assms
proof (induction m arbitrary: R0 b)
  case Nil
  then show ?case by (simp add: pieceCellAt_Nil)
next
  case (Cons r rs)
  from settleCells_char [OF Cons.prems, of r R0 C0] obtain b1 where
    b1: "settleCells r R0 C0 b = Inr b1" "wfBoard b1"
    and c1: "\<forall>i<20. \<forall>j<10. b1 ! i ! j =
        (if int i = R0 then (case rowCellAt r C0 j of Some v \<Rightarrow> Num v | None \<Rightarrow> b ! i ! j)
         else b ! i ! j)"
    by blast
  from Cons.IH [OF b1(2), of "R0 + 1"] obtain nb where
    nb: "settleRows rs (R0 + 1) C0 b1 = Inr nb" "wfBoard nb"
    and c2: "\<forall>i<20. \<forall>j<10. nb ! i ! j =
        (case pieceCellAt rs (R0 + 1) C0 i j of Some v \<Rightarrow> Num v | None \<Rightarrow> b1 ! i ! j)"
    by blast
  have "nb ! i ! j = (case pieceCellAt (r # rs) R0 C0 i j of Some v \<Rightarrow> Num v | None \<Rightarrow> b ! i ! j)"
    if "i < 20" "j < 10" for i j
  proof (cases "int i = R0")
    case True
    then have "pieceCellAt rs (R0 + 1) C0 i j = None"
      by (simp add: pieceCellAt_rows)
    with c1 c2 that True show ?thesis
      by (simp add: pieceCellAt_Cons)
  next
    case False
    with c1 that have "b1 ! i ! j = b ! i ! j" by simp
    with c2 that False show ?thesis
      by (simp add: pieceCellAt_Cons split: option.split)
  qed
  with b1 nb show ?case by simp
qed

lemma wfBoard_spec_settle: "wfBoard (spec_settle b m row0 col0)"
  by (simp add: wfBoard_def spec_settle_def list_all_iff)

lemma wfBoard_eqI:
  assumes "wfBoard a" and "wfBoard b" and "\<forall>i<20. \<forall>j<10. a ! i ! j = b ! i ! j"
  shows "a = b"
proof (rule nth_equalityI)
  from assms show "length a = length b" by (simp add: wfBoard_def)
next
  fix i assume "i < length a"
  with assms(1) have i: "i < 20" by (simp add: wfBoard_def)
  with assms(1,2) have l: "length (a ! i) = 10" "length (b ! i) = 10"
    by (simp_all add: wfBoard_def list_all_length)
  show "a ! i = b ! i"
  proof (rule nth_equalityI)
    from l show "length (a ! i) = length (b ! i)" by simp
  next
    fix j assume "j < length (a ! i)"
    with l have "j < 10" by simp
    with i assms(3) show "a ! i ! j = b ! i ! j" by simp
  qed
qed

lemma settleRows_spec:
  assumes "wfBoard b"
  shows "settleRows m R0 C0 b = Inr (spec_settle b m R0 C0)"
proof -
  from settleRows_char [OF assms, of m R0 C0] obtain nb where
    nb: "settleRows m R0 C0 b = Inr nb" "wfBoard nb"
    and c: "\<forall>i<20. \<forall>j<10. nb ! i ! j =
        (case pieceCellAt m R0 C0 i j of Some v \<Rightarrow> Num v | None \<Rightarrow> b ! i ! j)"
    by blast
  have "\<forall>i<20. \<forall>j<10. nb ! i ! j = spec_settle b m R0 C0 ! i ! j"
    using c by (simp add: spec_settle_def split: option.split)
  then have "nb = spec_settle b m R0 C0"
    by (rule wfBoard_eqI [OF nb(2) wfBoard_spec_settle])
  with nb show ?thesis by simp
qed

text \<open>
  Claim C10. For every board of 20 rows of 10 cells, every piece whose rotation index
  selects one of its matrices, and every position of the piece, the settling loop of
  \<open>lockPiece\<close> returns without an error. Its result has 20 rows of 10 cells; the cell
  \<open>(R, C)\<close> of the result, for \<open>R < 20\<close> and \<open>C < 10\<close>, is the non-empty cell of the piece
  that projects to \<open>(R, C)\<close> when there is one and the cell of the board otherwise. A
  cell of the piece that projects to a row outside \<open>[0, 20)\<close> or a column outside
  \<open>[0, 10)\<close> is written nowhere.
\<close>

theorem settle_in_bounds:
  assumes "wfBoard b" and "validPiece p"
  shows "settle b p
       = Inr (spec_settle b (matrices p ! rotation p) (row (position p)) (col (position p)))
     \<and> wfBoard (spec_settle b (matrices p ! rotation p) (row (position p)) (col (position p)))"
  using assms
  by (simp add: settle_def currentMatrix_def validPiece_def settleRows_spec wfBoard_spec_settle)

text \<open>
  The O-shaped piece at row \<open>-1\<close>, column 9: of its four cells only the one that projects
  to row 0, column 9 is written.
\<close>

theorem settle_in_bounds_witness:
  "wfBoard createEmptyBoard \<and> validPiece (O_piece\<lparr>position := \<lparr>row = - 1, col = 9\<rparr>\<rparr>)
   \<and> settle createEmptyBoard (O_piece\<lparr>position := \<lparr>row = - 1, col = 9\<rparr>\<rparr>)
       = Inr ((replicate 9 (Num 0) @ [Num 4]) # replicate 19 emptyRow)"
proof -
  have h2: "validPiece (O_piece\<lparr>position := \<lparr>row = - 1, col = 9\<rparr>\<rparr>)"
    by (simp add: validPiece_def O_piece_eq)
  have "settle createEmptyBoard (O_piece\<lparr>position := \<lparr>row = - 1, col = 9\<rparr>\<rparr>)
       = Inr ((replicate 9 (Num 0) @ [Num 4]) # replicate 19 emptyRow)"
    by code_simp
  with settle_in_bounds [OF wfBoard_createEmptyBoard h2] show ?thesis
    using wfBoard_createEmptyBoard h2 by simp
qed

section \<open>Rotation by the player and by the AI driver\<close>















section \<open>The heuristic evaluation\<close>

subsection \<open>Placing the piece\<close>

lemma placeCells_settleCells:
  "placeCells cells R C (b, f) =
     (case settleCells cells R C b of
        Inl e \<Rightarrow> Inl e
      | Inr nb \<Rightarrow> Inr (nb, f \<or> list_ex (\<lambda>cell. cell \<noteq> 0 \<and> R < 0) cells))"
proof (induction cells arbitrary: C b f)
  case Nil
  show ?case by simp
next
  case (Cons cell cells)
  show ?case
    by (auto simp: Cons.IH BOARD_HEIGHT_def split: sum.split)
qed

lemma placeRows_settleRows:
  "placeRows m R C (b, f) =
     (case settleRows m R C b of
        Inl e \<Rightarrow> Inl e
      | Inr nb \<Rightarrow> Inr (nb, f \<or> aboveTopRows m R))"
proof (induction m arbitrary: R b f)
  case Nil
  show ?case by simp
next
  case (Cons r rs)
  show ?case
    by (auto simp: placeCells_settleCells Cons.IH split: sum.split)
qed

lemma aboveTopRows_spec: "aboveTopRows m R = spec_aboveTop m R"
proof (induction m arbitrary: R)
  case Nil
  show ?case by (simp add: spec_aboveTop_def occupied_def)
next
  case (Cons cells m)
  have "(\<exists>cell \<in> set cells. cell \<noteq> 0) = (\<exists>c < length cells. cells ! c \<noteq> 0)"
    by (metis in_set_conv_nth)
  then have row0: "list_ex (\<lambda>cell. cell \<noteq> 0 \<and> R < 0) cells = (\<exists>c. occupied (cells # m) 0 c \<and> R < 0)"
    by (auto simp: list_ex_iff occupied_def)
  have rest: "spec_aboveTop m (R + 1) = (\<exists>r c. occupied (cells # m) (Suc r) c \<and> R + int (Suc r) < 0)"
    by (simp add: spec_aboveTop_def occupied_def algebra_simps)
  have "spec_aboveTop (cells # m) R
      = ((\<exists>c. occupied (cells # m) 0 c \<and> R < 0)
         \<or> (\<exists>r c. occupied (cells # m) (Suc r) c \<and> R + int (Suc r) < 0))"
    (is "?L = (?A \<or> ?B)")
  proof
    assume ?L
    then obtain r c where rc: "occupied (cells # m) r c" "R + int r < 0"
      unfolding spec_aboveTop_def by blast
    show "?A \<or> ?B"
    proof (cases r)
      case 0
      with rc show ?thesis by auto
    next
      case (Suc k)
      with rc show ?thesis by blast
    qed
  next
    assume "?A \<or> ?B"
    then show ?L
      unfolding spec_aboveTop_def
      by (metis add.right_neutral of_nat_0)
  qed
  with Cons.IH [of "R + 1"] row0 rest show ?case by auto
qed

subsection \<open>Clearing the full rows\<close>

lemma every_nonzero_rowFull: "every_nonzero r = rowFull r"
  by (simp add: every_nonzero_def rowFull_def list_all_iff)

lemma emptyRow_not_full: "\<not> rowFull emptyRow"
  by (simp add: rowFull_def emptyRow_def BOARD_WIDTH_def)

lemma length_emptyRow: "length emptyRow = 10"
  by (simp add: emptyRow_def BOARD_WIDTH_def)

lemma splice1_in_range:
  "0 \<le> r \<Longrightarrow> nat r < length b \<Longrightarrow> splice1 b r = take (nat r) b @ drop (Suc (nat r)) b"
  by (auto simp: splice1_def Let_def min_def)

lemma clearLoop_char:
  "\<lbrakk>- 1 \<le> r; nat (r + 1) \<le> length b; \<forall>i. nat (r + 1) \<le> i \<and> i < length b \<longrightarrow> \<not> rowFull (b ! i)\<rbrakk>
   \<Longrightarrow> clearLoop b r n
       = Inr (replicate (length (filter rowFull b)) emptyRow @ filter (\<lambda>x. \<not> rowFull x) b,
              n + int (length (filter rowFull b)))"
proof (induction b r n rule: clearLoop.induct)
  case (1 b r n)
  show ?case
  proof (cases "0 \<le> r")
    case False
    with "1.prems" have r: "r = - 1" by simp
    with "1.prems" have "\<forall>x \<in> set b. \<not> rowFull x"
      by (auto simp: in_set_conv_nth)
    then have "filter rowFull b = []" "filter (\<lambda>x. \<not> rowFull x) b = b"
      by (simp_all add: filter_empty_conv filter_id_conv)
    with r show ?thesis
      by (subst clearLoop.simps) simp
  next
    case True
    with "1.prems" have lt: "nat r < length b" by linarith
    have row: "js_row b r = Some (b ! nat r)"
      using True lt by (simp add: js_row_def)
    have split: "b = take (nat r) b @ b ! nat r # drop (Suc (nat r)) b"
      using lt by (simp add: id_take_nth_drop)
    show ?thesis
    proof (cases "rowFull (b ! nat r)")
      case full: True
      let ?b' = "emptyRow # splice1 b r"
      have sp: "splice1 b r = take (nat r) b @ drop (Suc (nat r)) b"
        using True lt by (rule splice1_in_range)
      have len: "length ?b' = length b"
        using lt by (simp add: sp)
      have cnt: "length (filter rowFull b) = Suc (length (filter rowFull ?b'))"
        by (subst split) (simp add: sp full emptyRow_not_full)
      have keep: "filter (\<lambda>x. \<not> rowFull x) ?b' = emptyRow # filter (\<lambda>x. \<not> rowFull x) b"
        by (subst (2) split) (simp add: sp full emptyRow_not_full)
      have inv: "\<forall>i. nat (r + 1) \<le> i \<and> i < length ?b' \<longrightarrow> \<not> rowFull (?b' ! i)"
      proof (intro allI impI)
        fix i assume i: "nat (r + 1) \<le> i \<and> i < length ?b'"
        with True obtain k where k: "i = Suc k" "nat r \<le> k" 
          by (cases i) (auto simp: nat_add_distrib)
        with i len have kb: "Suc k < length b" by simp
        have "?b' ! i = (take (nat r) b @ drop (Suc (nat r)) b) ! k"
          using k by (simp add: sp)
        also have "\<dots> = drop (Suc (nat r)) b ! (k - nat r)"
          using k lt by (simp add: nth_append)
        also have "\<dots> = b ! Suc k"
          using k kb by simp
        finally have "?b' ! i = b ! Suc k" .
        moreover have "\<not> rowFull (b ! Suc k)"
          using "1.prems"(3) k kb True by (auto simp: nat_add_distrib)
        ultimately show "\<not> rowFull (?b' ! i)" by simp
      qed
      have full': "every_nonzero (b ! nat r)"
        using full by (simp add: every_nonzero_rowFull)
      have len': "nat (r + 1) \<le> length ?b'"
        using "1.prems"(2) by (simp only: len)
      have IH: "clearLoop ?b' r (n + 1)
          = Inr (replicate (length (filter rowFull ?b')) emptyRow @ filter (\<lambda>x. \<not> rowFull x) ?b',
                 n + 1 + int (length (filter rowFull ?b')))"
        by (rule "1.IH"(1) [OF True row full' "1.prems"(1) len' inv])
      have "clearLoop b r n = clearLoop ?b' r (n + 1)"
        using True row full' by (subst clearLoop.simps) simp
      also note IH
      also have "replicate (length (filter rowFull ?b')) emptyRow @ filter (\<lambda>x. \<not> rowFull x) ?b'
          = replicate (length (filter rowFull b)) emptyRow @ filter (\<lambda>x. \<not> rowFull x) b"
        by (simp only: cnt keep replicate_app_Cons_same replicate_Suc append_Cons)
      also have "n + 1 + int (length (filter rowFull ?b')) = n + int (length (filter rowFull b))"
        by (simp add: cnt)
      finally show ?thesis .
    next
      case notfull: False
      have inv: "\<forall>i. nat (r - 1 + 1) \<le> i \<and> i < length b \<longrightarrow> \<not> rowFull (b ! i)"
      proof (intro allI impI)
        fix i assume i: "nat (r - 1 + 1) \<le> i \<and> i < length b"
        show "\<not> rowFull (b ! i)"
        proof (cases "i = nat r")
          case True
          with notfull show ?thesis by simp
        next
          case False
          with i True have "nat (r + 1) \<le> i" by (simp add: nat_add_distrib)
          with i "1.prems"(3) show ?thesis by simp
        qed
      qed
      have notfull': "\<not> every_nonzero (b ! nat r)"
        using notfull by (simp add: every_nonzero_rowFull)
      have r1: "- 1 \<le> r - 1" and len': "nat (r - 1 + 1) \<le> length b"
        using True "1.prems"(2) by simp_all
      have IH: "clearLoop b (r - 1) n
          = Inr (replicate (length (filter rowFull b)) emptyRow @ filter (\<lambda>x. \<not> rowFull x) b,
                 n + int (length (filter rowFull b)))"
        by (rule "1.IH"(2) [OF True row notfull' r1 len' inv])
      have "clearLoop b r n = clearLoop b (r - 1) n"
        using True row notfull' by (subst clearLoop.simps) simp
      with IH show ?thesis by simp
    qed
  qed
qed

lemma clearLoop_spec:
  assumes "wfBoard b"
  shows "clearLoop b (BOARD_HEIGHT - 1) 0 = Inr (spec_clear b, int (spec_linesCleared b))"
proof -
  from assms have len: "length b = 20" by (simp add: wfBoard_def)
  have "clearLoop b 19 0
      = Inr (replicate (length (filter rowFull b)) emptyRow @ filter (\<lambda>x. \<not> rowFull x) b,
             0 + int (length (filter rowFull b)))"
    by (rule clearLoop_char) (auto simp: len)
  then show ?thesis
    by (simp add: BOARD_HEIGHT_def spec_clear_def spec_linesCleared_def)
qed

lemma wfBoard_spec_clear:
  assumes "wfBoard b"
  shows "wfBoard (spec_clear b)"
proof -
  have "length (filter rowFull b) + length (filter (\<lambda>r. \<not> rowFull r) b) = length b"
    by (rule sum_length_filter_compl)
  with assms show ?thesis
    by (auto simp: wfBoard_def spec_clear_def spec_linesCleared_def list_all_iff length_emptyRow)
qed


subsection \<open>Column heights\<close>

lemma board_cell:
  assumes "wfBoard b" and "R < 20" and "C < 10"
  shows "js_row b (int R) = Some (b ! R)" and "js_cell (b ! R) (int C) = b ! R ! C"
proof -
  from wfBoard_row [OF assms(1), of "int R"] assms(2)
  have r: "js_row b (int R) = Some (b ! R)" and l: "length (b ! R) = 10"
    by simp_all
  from r show "js_row b (int R) = Some (b ! R)" .
  from l assms(3) show "js_cell (b ! R) (int C) = b ! R ! C"
    by (simp add: js_cell_def)
qed

lemma find_append_cases:
  "find P (xs @ ys) = (case find P xs of Some x \<Rightarrow> Some x | None \<Rightarrow> find P ys)"
  by (induction xs) simp_all

lemma find_upt_least:
  "find P [0..<n] = (if \<exists>R<n. P R then Some (LEAST R. P R) else None)"
proof (induction n)
  case 0
  show ?case by simp
next
  case (Suc n)
  show ?case
  proof (cases "\<exists>R<n. P R")
    case True
    then have "\<exists>R<Suc n. P R" using less_Suc_eq by blast
    with True Suc show ?thesis
      by (simp add: find_append_cases)
  next
    case False
    with Suc have none: "find P [0..<n] = None" by simp
    show ?thesis
    proof (cases "P n")
      case True
      have "(LEAST R. P R) = n"
      proof (rule Least_equality)
        show "P n" by (rule True)
      next
        fix y assume "P y"
        with False show "n \<le> y" by (meson not_le_imp_less)
      qed
      moreover have "\<exists>R<Suc n. P R" using True by blast
      ultimately show ?thesis
        using none True by (simp add: find_append_cases)
    next
      case notP: False
      with False have "\<not> (\<exists>R<Suc n. P R)"
        using less_Suc_eq by auto
      with none notP show ?thesis
        by (simp add: find_append_cases)
    qed
  qed
qed

lemma heightScan_find:
  assumes "wfBoard b" and "C < 10"
  shows "\<forall>R \<in> set rows. R < 20 \<Longrightarrow>
    heightScan b (int C) rows
      = Inr (case find (\<lambda>R. b ! R ! C \<noteq> Num 0) rows of Some R \<Rightarrow> 20 - int R | None \<Rightarrow> 0)"
proof (induction rows)
  case Nil
  show ?case by simp
next
  case (Cons R rows)
  then have R: "R < 20" by simp
  from Cons show ?case
    by (simp add: board_cell [OF assms(1) R assms(2)] BOARD_HEIGHT_def)
qed

lemma heightScan_spec:
  assumes "wfBoard b" and "C < 10"
  shows "heightScan b (int C) [0..<nat BOARD_HEIGHT] = Inr (spec_height b C)"
proof -
  have "heightScan b (int C) [0..<20]
      = Inr (case find (\<lambda>R. b ! R ! C \<noteq> Num 0) [0..<20] of Some R \<Rightarrow> 20 - int R | None \<Rightarrow> 0)"
    by (rule heightScan_find [OF assms]) simp
  then show ?thesis
    by (auto simp add: find_upt_least spec_height_def BOARD_HEIGHT_def)
qed

lemma columnHeights_map:
  assumes "wfBoard b"
  shows "\<forall>C \<in> set cs. C < 10 \<Longrightarrow> columnHeights b cs = Inr (map (spec_height b) cs)"
  by (induction cs) (simp_all add: heightScan_spec [OF assms])

lemma sum_list_heights:
  "sum_list (map (spec_height b) [0..<10]) = spec_aggregateHeight b"
  by (simp add: spec_aggregateHeight_def interv_sum_list_conv_sum_set_nat atLeast0LessThan)

subsection \<open>Holes\<close>

lemma holesScan_char:
  assumes "wfBoard b" and "C < 10"
  shows "k \<le> 20 \<Longrightarrow>
    holesScan b (int C) [k..<20] (\<exists>R'<k. b ! R' ! C \<noteq> Num 0) holes
      = Inr (holes + int (card {R. k \<le> R \<and> R < 20 \<and> isHole b R C}))"
proof (induction "20 - k" arbitrary: k holes)
  case 0
  then have "k = 20" by simp
  then show ?case by simp
next
  case (Suc d)
  then have k: "k < 20" and d: "d = 20 - Suc k" and k': "Suc k \<le> 20" by simp_all
  let ?S = "\<lambda>k. {R. k \<le> R \<and> R < 20 \<and> isHole b R C}"
  have upt: "[k..<20] = k # [Suc k..<20]"
    using k by (simp add: upt_conv_Cons)
  have fin: "finite (?S (Suc k))" by simp
  have notin: "k \<notin> ?S (Suc k)" by simp
  have S: "?S k = (if isHole b k C then insert k (?S (Suc k)) else ?S (Suc k))"
    using k by (auto simp: le_Suc_eq Suc_le_eq) (metis Suc_leI le_neq_implies_less)+
  have flag: "(\<exists>R'<Suc k. b ! R' ! C \<noteq> Num 0)
      = ((\<exists>R'<k. b ! R' ! C \<noteq> Num 0) \<or> b ! k ! C \<noteq> Num 0)"
    using less_Suc_eq by auto
  have hole: "isHole b k C = (b ! k ! C = Num 0 \<and> (\<exists>R'<k. b ! R' ! C \<noteq> Num 0))"
    by (simp add: isHole_def)
  note IH = Suc.hyps(1) [OF d k']
  show ?case
  proof (cases "b ! k ! C \<noteq> Num 0")
    case True
    then have "\<not> isHole b k C" by (simp add: hole)
    with S have eq: "?S k = ?S (Suc k)" by simp
    from True flag have fl: "(\<exists>R'<Suc k. b ! R' ! C \<noteq> Num 0) = True" by simp
    have "holesScan b (int C) [k..<20] (\<exists>R'<k. b ! R' ! C \<noteq> Num 0) holes
        = holesScan b (int C) [Suc k..<20] True holes"
      using True by (auto simp add: upt board_cell [OF assms(1) k assms(2)] simp del: upt_Suc)
    also have "\<dots> = Inr (holes + int (card (?S (Suc k))))"
      using IH [of holes] by (simp only: fl)
    finally show ?thesis by (simp only: eq)
  next
    case False
    then have zero: "b ! k ! C = Num 0" by simp
    from zero flag have fl: "(\<exists>R'<Suc k. b ! R' ! C \<noteq> Num 0) = (\<exists>R'<k. b ! R' ! C \<noteq> Num 0)"
      by simp
    show ?thesis
    proof (cases "\<exists>R'<k. b ! R' ! C \<noteq> Num 0")
      case True
      then have "isHole b k C" using zero by (simp add: hole)
      with S have eq: "?S k = insert k (?S (Suc k))" by simp
      have card: "card (?S k) = Suc (card (?S (Suc k)))"
        unfolding eq using fin notin by (rule card_insert_disjoint)
      have "holesScan b (int C) [k..<20] (\<exists>R'<k. b ! R' ! C \<noteq> Num 0) holes
          = holesScan b (int C) [Suc k..<20] (\<exists>R'<k. b ! R' ! C \<noteq> Num 0) (holes + 1)"
        using True zero by (auto simp add: upt board_cell [OF assms(1) k assms(2)] simp del: upt_Suc)
      also have "\<dots> = Inr (holes + 1 + int (card (?S (Suc k))))"
        using IH [of "holes + 1"] by (simp only: fl)
      finally show ?thesis by (simp add: card)
    next
      case noflag: False
      then have "\<not> isHole b k C" by (simp add: hole)
      with S have eq: "?S k = ?S (Suc k)" by simp
      have "holesScan b (int C) [k..<20] (\<exists>R'<k. b ! R' ! C \<noteq> Num 0) holes
          = holesScan b (int C) [Suc k..<20] (\<exists>R'<k. b ! R' ! C \<noteq> Num 0) holes"
        using noflag zero by (auto simp add: upt board_cell [OF assms(1) k assms(2)] simp del: upt_Suc)
      also have "\<dots> = Inr (holes + int (card (?S (Suc k))))"
        using IH [of holes] by (simp only: fl)
      finally show ?thesis by (simp only: eq)
    qed
  qed
qed

lemma holesScan_column:
  assumes "wfBoard b" and "C < 10"
  shows "holesScan b (int C) [0..<nat BOARD_HEIGHT] False holes
      = Inr (holes + int (card {R. R < 20 \<and> isHole b R C}))"
  using holesScan_char [OF assms, of 0 holes] by (simp add: BOARD_HEIGHT_def)

lemma holesColumns_char:
  assumes "wfBoard b"
  shows "\<forall>C \<in> set cs. C < 10 \<Longrightarrow>
    holesColumns b cs holes
      = Inr (holes + (\<Sum>C\<leftarrow>cs. int (card {R. R < 20 \<and> isHole b R C})))"
  by (induction cs arbitrary: holes) (simp_all add: holesScan_column [OF assms])

lemma spec_holes_sum:
  "spec_holes b = (\<Sum>C<10. card {R. R < 20 \<and> isHole b R C})"
proof -
  let ?A = "\<lambda>C. (\<lambda>R. (R, C)) ` {R. R < 20 \<and> isHole b R C}"
  have "{(R, C). R < 20 \<and> C < 10 \<and> isHole b R C} = (\<Union>C \<in> {..<10}. ?A C)"
    by auto
  then have "spec_holes b = card (\<Union>C \<in> {..<10}. ?A C)"
    by (simp add: spec_holes_def)
  also have "\<dots> = (\<Sum>C \<in> {..<10}. card (?A C))"
    by (rule card_UN_disjoint) auto
  also have "\<dots> = (\<Sum>C \<in> {..<10}. card {R. R < 20 \<and> isHole b R C})"
    by (intro sum.cong refl card_image) (simp add: inj_on_def)
  finally show ?thesis .
qed

lemma holesColumns_spec:
  assumes "wfBoard b"
  shows "holesColumns b [0..<nat BOARD_WIDTH] 0 = Inr (int (spec_holes b))"
proof -
  have "holesColumns b [0..<10] 0
      = Inr (0 + (\<Sum>C\<leftarrow>[0..<10]. int (card {R. R < 20 \<and> isHole b R C})))"
    by (rule holesColumns_char [OF assms]) simp
  then show ?thesis
    by (simp add: spec_holes_sum interv_sum_list_conv_sum_set_nat atLeast0LessThan BOARD_WIDTH_def)
qed

subsection \<open>Bumpiness\<close>

lemma bumpinessOf_map:
  "bumpinessOf (map h [k..<n]) = (\<Sum>C \<in> {k..<n - 1}. \<bar>h C - h (C + 1)\<bar>)"
proof (induction "n - k" arbitrary: k)
  case 0
  then show ?case by simp
next
  case (Suc d)
  then have k: "k < n" and d: "d = n - Suc k" by simp_all
  show ?case
  proof (cases "Suc k < n")
    case False
    with k have "n = Suc k" by simp
    then show ?thesis by simp
  next
    case True
    then have upt: "[k..<n] = k # Suc k # [Suc (Suc k)..<n]" and upt': "[Suc k..<n] = Suc k # [Suc (Suc k)..<n]"
      using k by (simp_all add: upt_conv_Cons)
    have "bumpinessOf (map h [k..<n]) = \<bar>h k - h (Suc k)\<bar> + bumpinessOf (map h [Suc k..<n])"
      by (simp add: upt upt')
    also have "bumpinessOf (map h [Suc k..<n]) = (\<Sum>C \<in> {Suc k..<n - 1}. \<bar>h C - h (C + 1)\<bar>)"
      by (rule Suc.hyps(1) [OF d])
    also have "\<bar>h k - h (Suc k)\<bar> + (\<Sum>C \<in> {Suc k..<n - 1}. \<bar>h C - h (C + 1)\<bar>)
        = (\<Sum>C \<in> {k..<n - 1}. \<bar>h C - h (C + 1)\<bar>)"
      using True by (simp add: sum.atLeast_Suc_lessThan)
    finally show ?thesis .
  qed
qed

lemma bumpinessOf_spec:
  "bumpinessOf (map (spec_height b) [0..<10]) = spec_bumpiness b"
  by (simp add: bumpinessOf_map spec_bumpiness_def atLeast0LessThan)

subsection \<open>The evaluation\<close>

text \<open>
  Claim C3. On a board of 20 rows of 10 cells and for a piece whose rotation index selects
  one of its matrices, \<open>evaluateBoardState\<close> returns without an error: negative infinity
  when an occupied cell of the placement at the drop row lands above the board, and
  otherwise \<open>linesCleared * 5000 - aggregateHeight * 10 - holes * 75 - bumpiness * 3\<close>,
  where the lines are the full rows of the board after the simulated settle and the
  heights, holes and bumpiness are those of that board after its full rows are cleared.
\<close>

theorem evaluateBoardState_refines_spec:
  assumes "wfBoard b" and "validPiece piece"
  shows "evaluateBoardState b piece dropRow
     = Inr (spec_evaluate b (matrices piece ! rotation piece) dropRow (col (position piece)))"
proof -
  let ?m = "matrices piece ! rotation piece"
  let ?c = "col (position piece)"
  let ?settled = "spec_settle b ?m dropRow ?c"
  let ?cleared = "spec_clear ?settled"
  have cm: "currentMatrix piece = Some ?m"
    using assms(2) by (simp add: currentMatrix_def validPiece_def)
  have place: "placeRows ?m dropRow ?c (b, False) = Inr (?settled, spec_aboveTop ?m dropRow)"
    by (simp add: placeRows_settleRows settleRows_spec [OF assms(1)] aboveTopRows_spec)
  have ws: "wfBoard ?settled"
    by (rule wfBoard_spec_settle)
  have wc: "wfBoard ?cleared"
    using ws by (rule wfBoard_spec_clear)
  have clear: "clearLoop ?settled (BOARD_HEIGHT - 1) 0 = Inr (?cleared, int (spec_linesCleared ?settled))"
    using ws by (rule clearLoop_spec)
  have heights: "columnHeights ?cleared [0..<nat BOARD_WIDTH] = Inr (map (spec_height ?cleared) [0..<10])"
    using columnHeights_map [OF wc, of "[0..<10]"] by (simp add: BOARD_WIDTH_def)
  have holes: "holesColumns ?cleared [0..<nat BOARD_WIDTH] 0 = Inr (int (spec_holes ?cleared))"
    using wc by (rule holesColumns_spec)
  show ?thesis
    by (simp add: evaluateBoardState_def cm place clear heights holes sum_list_heights
        bumpinessOf_spec spec_evaluate_def Let_def del: upt_Suc)
qed

text \<open>
  The O-shaped piece dropped to row 18 at the left wall of the empty board: no line, two
  columns of height 2, no hole, one step of 2.
\<close>

theorem evaluateBoardState_refines_spec_witness:
  "wfBoard createEmptyBoard
   \<and> validPiece (O_piece\<lparr>position := \<lparr>row = 18, col = 0\<rparr>\<rparr>)
   \<and> evaluateBoardState createEmptyBoard (O_piece\<lparr>position := \<lparr>row = 18, col = 0\<rparr>\<rparr>) 18
       = Inr (Points (- 46))
   \<and> spec_evaluate createEmptyBoard [[4, 4], [4, 4]] 18 0 = Points (- 46)"
proof -
  let ?p = "O_piece\<lparr>position := \<lparr>row = 18, col = 0\<rparr>\<rparr>"
  have v: "validPiece ?p"
    by (simp add: validPiece_def O_piece_def spawnNewPiece_def getRotations_def Let_def)
  have m: "matrices ?p ! rotation ?p = [[4, 4], [4, 4]]"
    by code_simp
  have e: "evaluateBoardState createEmptyBoard ?p 18 = Inr (Points (- 46))"
    by code_simp
  from evaluateBoardState_refines_spec [OF wfBoard_createEmptyBoard v, of 18]
  have "evaluateBoardState createEmptyBoard ?p 18
      = Inr (spec_evaluate createEmptyBoard [[4, 4], [4, 4]] 18 0)"
    by (simp only: m) simp
  with e have "spec_evaluate createEmptyBoard [[4, 4], [4, 4]] 18 0 = Points (- 46)"
    by simp
  with wfBoard_createEmptyBoard v e show ?thesis
    by blast
qed
end
